theory Spec2Isabelle
  imports Main
begin

section \<open>DualOStream: a stream buffer that tees its output to two stream buffers\<close>

text \<open>
  The development follows \<^verbatim>\<open>DualOStream.h\<close>: the class \<^verbatim>\<open>CTeeBuf\<close> (a
  \<^verbatim>\<open>std::streambuf\<close> without a buffer of its own, so that every character written
  reaches \<^verbatim>\<open>overflow\<close>) and the class \<^verbatim>\<open>DStream\<close> built on it.

  What the header takes from the C++ library is modelled here as far as the header uses it:
  the two destination stream buffers, the local \<^verbatim>\<open>std::ostream\<close> objects that
  \<^verbatim>\<open>overflow\<close> builds on them, \<^verbatim>\<open>std::to_string\<close> on \<^verbatim>\<open>int\<close>, and the clocks.
\<close>

subsection \<open>Characters and the end-of-file value\<close>

text \<open>The macro \<^verbatim>\<open>EOF\<close> is \<open>-1\<close>; a value of type \<^verbatim>\<open>int\<close> is an integer.\<close>

definition EOF :: int where
  "EOF = - 1"

text \<open>C's logical negation \<^verbatim>\<open>!x\<close>, as used in \<^verbatim>\<open>return !EOF;\<close>.\<close>

definition lnot :: "int \<Rightarrow> int" where
  "lnot x = (if x = 0 then 1 else 0)"

text \<open>
  \<^verbatim>\<open>traits_type::to_char_type\<close> keeps the low eight bits of an \<^verbatim>\<open>int\<close>;
  \<^verbatim>\<open>traits_type::to_int_type\<close> reads a character as an unsigned byte.
\<close>

definition to_char_type :: "int \<Rightarrow> char" where
  "to_char_type i = char_of i"

definition to_int_type :: "char \<Rightarrow> int" where
  "to_int_type ch = of_char ch"

subsection \<open>\<^verbatim>\<open>std::to_string(int)\<close>\<close>

definition digit_char :: "nat \<Rightarrow> char" where
  "digit_char d = ''0123456789'' ! d"

fun dec_digits :: "nat \<Rightarrow> string" where
  "dec_digits n =
     (if n < 10 then [digit_char n] else dec_digits (n div 10) @ [digit_char (n mod 10)])"

declare dec_digits.simps [simp del]

text \<open>The decimal text that \<^verbatim>\<open>%d\<close> prints: a sign for a negative value, no padding.\<close>

definition to_string :: "int \<Rightarrow> string" where
  "to_string i = (if i < 0 then CHR ''-'' # dec_digits (nat (- i)) else dec_digits (nat i))"

subsection \<open>The elapsed seconds: \<^verbatim>\<open>duration<double>\<close> and \<^verbatim>\<open>std::to_string(double)\<close>\<close>

text \<open>
  A finite \<^verbatim>\<open>double\<close> is a sign, a mantissa and an exponent of two; its value is the
  mantissa times two to the exponent, negated when the sign is set. The tick counts and
  tick rates of a clock are far from the range where a quotient overflows or becomes
  subnormal, so the exponent is not bounded here.
\<close>

record double =
  negative :: bool
  mant :: nat
  expo :: int

text \<open>The number of binary digits of a natural number.\<close>

fun bits :: "nat \<Rightarrow> nat" where
  "bits n = (if n = 0 then 0 else Suc (bits (n div 2)))"

declare bits.simps [simp del]

text \<open>The quotient \<open>a / b\<close> rounded to the nearest integer, a tie to the even one.\<close>

definition round_half_even :: "nat \<Rightarrow> nat \<Rightarrow> nat" where
  "round_half_even a b =
     (let q = a div b; r = a mod b
      in if 2 * r < b then q else if b < 2 * r then q + 1 else if even q then q else q + 1)"

text \<open>
  The \<^verbatim>\<open>double\<close> nearest to \<open>a / b\<close> (a tie to the even mantissa), as the arithmetic of
  IEEE 754 rounds every result: the exponent \<open>e\<close> of the quotient is found first, with
  \<open>2 ^ e \<le> a / b < 2 ^ (e + 1)\<close>, and the mantissa is the quotient scaled to 53 binary
  digits and rounded.
\<close>

definition round_ratio :: "bool \<Rightarrow> nat \<Rightarrow> nat \<Rightarrow> double" where
  "round_ratio neg a b =
     (if a = 0 then \<lparr>negative = neg, mant = 0, expo = 0\<rparr>
      else
        (let e0 = int (bits a) - int (bits b);
             e = (if (if 0 \<le> e0 then b * 2 ^ nat e0 \<le> a else b \<le> a * 2 ^ nat (- e0))
                  then e0 else e0 - 1);
             s = 52 - e;
             m = (if 0 \<le> s then round_half_even (a * 2 ^ nat s) b
                  else round_half_even a (b * 2 ^ nat (- s)))
         in \<lparr>negative = neg, mant = m, expo = - s\<rparr>))"

text \<open>\<^verbatim>\<open>static_cast<double>\<close> of an integer, and the division of two \<^verbatim>\<open>double\<close>s.\<close>

definition double_of_int :: "int \<Rightarrow> double" where
  "double_of_int i = round_ratio (i < 0) (nat \<bar>i\<bar>) 1"

definition double_div :: "double \<Rightarrow> double \<Rightarrow> double" where
  "double_div x y =
     round_ratio (negative x \<noteq> negative y)
       (mant x * 2 ^ nat (expo x - expo y)) (mant y * 2 ^ nat (expo y - expo x))"

text \<open>
  Line 58: \<^verbatim>\<open>std::chrono::duration<double> time_span = now - start\<close>. The difference is
  a count \<open>d\<close> of ticks of the clock, of which there are \<open>den\<close> in a second (the period of
  \<^verbatim>\<open>high_resolution_clock\<close>, which the library chooses); the conversion to seconds
  in \<^verbatim>\<open>double\<close> divides the count by that number, both as \<^verbatim>\<open>double\<close>.
\<close>

definition duration_double :: "nat \<Rightarrow> int \<Rightarrow> double" where
  "duration_double den d = double_div (double_of_int d) (double_of_int (int den))"

text \<open>
  Line 76: \<^verbatim>\<open>std::to_string(double)\<close> prints as \<^verbatim>\<open>%f\<close> does: the sign of a negative
  value, the value rounded to six decimals (\<open>micros\<close> is the rounded value in millionths),
  its integer part, a point, and the six decimals.
\<close>

definition micros :: "double \<Rightarrow> nat" where
  "micros x =
     (if 0 \<le> expo x then mant x * 1000000 * 2 ^ nat (expo x)
      else round_half_even (mant x * 1000000) (2 ^ nat (- expo x)))"

definition to_string_double :: "double \<Rightarrow> string" where
  "to_string_double x =
     (let m = micros x; fr = dec_digits (m mod 1000000)
      in (if negative x then ''-'' else []) @ dec_digits (m div 1000000) @ ''.''
         @ replicate (6 - length fr) CHR ''0'' @ fr)"

text \<open>Lines 58 and 76 together: the text of the elapsed time, from the count of ticks.\<close>

definition elapsed_text :: "nat \<Rightarrow> int \<Rightarrow> string" where
  "elapsed_text den d = to_string_double (duration_double den d)"

subsection \<open>The destinations\<close>

text \<open>
  A destination is a \<^verbatim>\<open>std::streambuf\<close> owned by the caller. Of such a buffer the tee
  uses \<^verbatim>\<open>sputc\<close>, \<^verbatim>\<open>sputn\<close> (through the local output streams) and \<^verbatim>\<open>pubsync\<close>.
  The model keeps the characters handed to the buffer (\<open>offered\<close>), those it took
  (\<open>received\<close>), the number of sync requests it got, and how it answers: whether it takes
  the next character, given all that was offered before, and what a sync returns.
\<close>

record sink =
  offered :: string
  received :: string
  syncs :: nat
  accepts :: "string \<Rightarrow> char \<Rightarrow> bool"
  sync_result :: "string \<Rightarrow> int"

text \<open>\<^verbatim>\<open>sputc\<close> returns the character as an \<^verbatim>\<open>int\<close>, or \<^verbatim>\<open>EOF\<close> when the buffer refuses it.\<close>

definition sputc :: "char \<Rightarrow> sink \<Rightarrow> int \<times> sink" where
  "sputc ch k =
     (if accepts k (offered k) ch
      then (to_int_type ch, k\<lparr>offered := offered k @ [ch], received := received k @ [ch]\<rparr>)
      else (EOF, k\<lparr>offered := offered k @ [ch]\<rparr>))"

text \<open>
  \<^verbatim>\<open>sputn\<close> writes the characters one after the other and stops at the first one that
  is refused; it returns how many were written.
\<close>

fun sputn :: "string \<Rightarrow> sink \<Rightarrow> nat \<times> sink" where
  "sputn [] k = (0, k)"
| "sputn (ch # cs) k =
     (case sputc ch k of (r, k') \<Rightarrow>
        if r = EOF then (0, k')
        else (case sputn cs k' of (n, k'') \<Rightarrow> (Suc n, k'')))"

definition pubsync :: "sink \<Rightarrow> int \<times> sink" where
  "pubsync k = (sync_result k (received k), k\<lparr>syncs := Suc (syncs k)\<rparr>)"

subsection \<open>The local output streams\<close>

text \<open>
  \<^verbatim>\<open>overflow\<close> builds \<^verbatim>\<open>std::ostream str1(sb1)\<close> and \<^verbatim>\<open>str2(sb2)\<close> anew in every
  call. Such a stream holds a pointer to its buffer, its state (here: good or not), the
  field width and the adjustment. Inserting a string writes it through \<^verbatim>\<open>sputn\<close>,
  padded with spaces up to the width, and resets the width; a failed write sets the bad bit,
  and a stream that is not good writes nothing.
\<close>

record ostream =
  os_good :: bool
  os_width :: nat
  os_left :: bool

definition ostream_init :: ostream where
  "ostream_init = \<lparr>os_good = True, os_width = 0, os_left = False\<rparr>"

definition setw :: "nat \<Rightarrow> ostream \<Rightarrow> ostream" where
  "setw n os = os\<lparr>os_width := n\<rparr>"

definition set_left :: "ostream \<Rightarrow> ostream" where
  "set_left os = os\<lparr>os_left := True\<rparr>"

definition ostream_write :: "string \<Rightarrow> ostream \<times> sink \<Rightarrow> ostream \<times> sink" where
  "ostream_write s = (\<lambda>(os, k).
     case sputn s k of (n, k') \<Rightarrow> (if n \<noteq> length s then os\<lparr>os_good := False\<rparr> else os, k'))"

fun ostream_fill :: "nat \<Rightarrow> ostream \<times> sink \<Rightarrow> ostream \<times> sink" where
  "ostream_fill 0 (os, k) = (os, k)"
| "ostream_fill (Suc n) (os, k) =
     (case sputc CHR '' '' k of (r, k') \<Rightarrow>
        if r = EOF then (os\<lparr>os_good := False\<rparr>, k') else ostream_fill n (os, k'))"

definition ostream_insert :: "string \<Rightarrow> ostream \<times> sink \<Rightarrow> ostream \<times> sink" where
  "ostream_insert s = (\<lambda>(os, k).
     if \<not> os_good os then (os, k)
     else
       (case
          (if length s < os_width os then
             (if os_left os then
                (case ostream_write s (os, k) of (os1, k1) \<Rightarrow>
                   if os_good os1 then ostream_fill (os_width os - length s) (os1, k1)
                   else (os1, k1))
              else
                (case ostream_fill (os_width os - length s) (os, k) of (os1, k1) \<Rightarrow>
                   if os_good os1 then ostream_write s (os1, k1) else (os1, k1)))
           else ostream_write s (os, k))
        of (os2, k2) \<Rightarrow> (os2\<lparr>os_width := 0\<rparr>, k2)))"

subsection \<open>The clocks\<close>

text \<open>
  \<^verbatim>\<open>struct tm\<close> as far as \<^verbatim>\<open>GetTimeStamp\<close> reads it, and what the clocks answer
  during one call: \<open>hrc_first\<close> is what \<^verbatim>\<open>high_resolution_clock::now()\<close> returns where
  the clock is started (line 54, when that line runs), \<open>hrc_now\<close> what it returns on line
  57, in ticks of the clock, and \<open>local_tm\<close> is the local calendar time of line 63.
\<close>

record tm =
  tm_sec :: int
  tm_min :: int
  tm_hour :: int
  tm_mday :: int
  tm_mon :: int
  tm_year :: int

record clocks =
  hrc_first :: int
  hrc_now :: int
  local_tm :: tm

subsection \<open>\<^verbatim>\<open>CTeeBuf\<close>\<close>

record CTeeBuf =
  timeStampEnabledStream1 :: bool
  timeStampEnabledStream2 :: bool
  timeStamp :: string
  forceMessage :: bool
  forcedMessage :: string
  sb1 :: sink
  sb2 :: sink
  clockStarted :: bool
  start :: int
  now :: int
  newline :: bool

text \<open>The constructor, with the default member initialisers of the class.\<close>

definition CTeeBuf_init :: "sink \<Rightarrow> sink \<Rightarrow> CTeeBuf" where
  "CTeeBuf_init k1 k2 =
     \<lparr>timeStampEnabledStream1 = False, timeStampEnabledStream2 = False,
      timeStamp = [], forceMessage = False, forcedMessage = [],
      sb1 = k1, sb2 = k2, clockStarted = False, start = 0, now = 0, newline = True\<rparr>"

text \<open>
  \<^verbatim>\<open>GetTimeStamp\<close>. The elapsed time is a \<^verbatim>\<open>duration<double>\<close> in seconds printed
  by \<^verbatim>\<open>std::to_string(double)\<close>. The function takes the map \<open>dtos\<close> from the difference
  of the two clock readings, in ticks, to that text; with a clock of \<open>den\<close> ticks in a
  second the map is \<open>elapsed_text den\<close>. What does not depend on the text of the elapsed
  time is proved for every such map.
\<close>

definition GetTimeStamp :: "(int \<Rightarrow> string) \<Rightarrow> clocks \<Rightarrow> CTeeBuf \<Rightarrow> string \<times> CTeeBuf" where
  "GetTimeStamp dtos ck b =
     (let b1 = (if clockStarted b = False
                then b\<lparr>start := hrc_first ck, clockStarted := True\<rparr> else b);
          b2 = b1\<lparr>now := hrc_now ck\<rparr>;
          time_span = now b2 - start b2;
          local = local_tm ck;
          strTimeStamp =
            ''['' @ to_string (tm_year local + 1900) @ ''-'' @ to_string (tm_mon local + 1)
            @ ''-'' @ to_string (tm_mday local) @ ''|'' @ to_string (tm_hour local)
            @ '':'' @ to_string (tm_min local) @ '':'' @ to_string (tm_sec local)
            @ ''|'' @ dtos time_span @ ''] ''
      in (strTimeStamp, b2))"

text \<open>
  The activation of \<^verbatim>\<open>overflow\<close>: the object, the two local streams and the
  parameter \<^verbatim>\<open>c\<close>, which the body may overwrite.
\<close>

record frame =
  buf :: CTeeBuf
  str1 :: ostream
  str2 :: ostream
  c :: int

text \<open>\<^verbatim>\<open>str1 << s\<close> and \<^verbatim>\<open>str2 << s\<close>: the stream writes into the buffer it points to.\<close>

definition out1 :: "string \<Rightarrow> frame \<Rightarrow> frame" where
  "out1 s f =
     (case ostream_insert s (str1 f, sb1 (buf f)) of
        (os, k) \<Rightarrow> f\<lparr>str1 := os, buf := (buf f)\<lparr>sb1 := k\<rparr>\<rparr>)"

definition out2 :: "string \<Rightarrow> frame \<Rightarrow> frame" where
  "out2 s f =
     (case ostream_insert s (str2 f, sb2 (buf f)) of
        (os, k) \<Rightarrow> f\<lparr>str2 := os, buf := (buf f)\<lparr>sb2 := k\<rparr>\<rparr>)"

text \<open>Lines 94 to 99: a pending forced message starts on a line of its own.\<close>

definition force_newline :: "frame \<Rightarrow> frame" where
  "force_newline f =
     (if forceMessage (buf f) = True
      then out2 [CHR 0x0A] (out1 [CHR 0x0A] (f\<lparr>buf := (buf f)\<lparr>newline := True\<rparr>\<rparr>))
      else f)"

text \<open>Lines 103 to 111: the time stamp, to each stream that has it enabled.\<close>

definition stamp_line :: "(int \<Rightarrow> string) \<Rightarrow> clocks \<Rightarrow> frame \<Rightarrow> frame" where
  "stamp_line dtos ck f =
     (if timeStampEnabledStream1 (buf f) = True \<or> timeStampEnabledStream2 (buf f) = True
      then
        (case GetTimeStamp dtos ck (buf f) of (t, b) \<Rightarrow>
           let f0 = f\<lparr>buf := b\<lparr>timeStamp := t\<rparr>\<rparr>;
               f1 = (if timeStampEnabledStream1 (buf f0) = True
                     then out1 (timeStamp (buf f0))
                            (f0\<lparr>str1 := set_left (setw 32 (str1 f0))\<rparr>)
                     else f0);
               f2 = (if timeStampEnabledStream2 (buf f1) = True
                     then out2 (timeStamp (buf f1))
                            (f1\<lparr>str2 := set_left (setw 32 (str2 f1))\<rparr>)
                     else f1)
           in f2)
      else f)"

text \<open>Lines 113 to 120: the forced message, after which the flag is cleared.\<close>

definition emit_forced :: "frame \<Rightarrow> frame" where
  "emit_forced f =
     (if forceMessage (buf f) = True
      then
        (let f1 = out1 (forcedMessage (buf f)) f;
             f2 = out2 (forcedMessage (buf f1)) f1
         in f2\<lparr>buf := (buf f2)\<lparr>forceMessage := False\<rparr>, c := 10\<rparr>)
      else f)"

text \<open>Lines 101 to 121.\<close>

definition line_start :: "(int \<Rightarrow> string) \<Rightarrow> clocks \<Rightarrow> frame \<Rightarrow> frame" where
  "line_start dtos ck f =
     (if newline (buf f) = True then emit_forced (stamp_line dtos ck f) else f)"

text \<open>Lines 123 to 126.\<close>

definition track_newline :: "frame \<Rightarrow> frame" where
  "track_newline f =
     (if to_char_type (c f) = CHR 0x0A
      then f\<lparr>buf := (buf f)\<lparr>newline := True\<rparr>\<rparr>
      else f\<lparr>buf := (buf f)\<lparr>newline := False\<rparr>\<rparr>)"

text \<open>
  Everything \<^verbatim>\<open>overflow\<close> does, for a character other than \<^verbatim>\<open>EOF\<close>, before it
  hands the character to the two buffers (lines 91 to 126).
\<close>

definition decorate :: "(int \<Rightarrow> string) \<Rightarrow> clocks \<Rightarrow> int \<Rightarrow> CTeeBuf \<Rightarrow> frame" where
  "decorate dtos ck ci b =
     track_newline (line_start dtos ck (force_newline
       \<lparr>buf = b, str1 = ostream_init, str2 = ostream_init, c = ci\<rparr>))"

text \<open>
  \<^verbatim>\<open>overflow\<close>: the result and the object afterwards. Lines 128 to 131 write the
  character to the first buffer, then to the second, whatever the first answered.
\<close>

definition overflow :: "(int \<Rightarrow> string) \<Rightarrow> clocks \<Rightarrow> int \<Rightarrow> CTeeBuf \<Rightarrow> int \<times> CTeeBuf" where
  "overflow dtos ck ci b =
     (if ci = EOF then (lnot EOF, b)
      else
        (let f = decorate dtos ck ci b in
         case sputc (to_char_type (c f)) (sb1 (buf f)) of (r1, k1) \<Rightarrow>
         case sputc (to_char_type (c f)) (sb2 (buf f)) of (r2, k2) \<Rightarrow>
           (if r1 = EOF \<or> r2 = EOF then EOF else c f, (buf f)\<lparr>sb1 := k1, sb2 := k2\<rparr>)))"

text \<open>\<^verbatim>\<open>sync\<close>: both buffers are asked, the second whatever the first answered.\<close>

definition sync :: "CTeeBuf \<Rightarrow> int \<times> CTeeBuf" where
  "sync b =
     (case pubsync (sb1 b) of (r1, k1) \<Rightarrow>
      case pubsync (sb2 b) of (r2, k2) \<Rightarrow>
        (if r1 = 0 \<and> r2 = 0 then 0 else - 1, b\<lparr>sb1 := k1, sb2 := k2\<rparr>))"

text \<open>
  \<^verbatim>\<open>sputc\<close> on the tee itself: the class sets no put area, so the character goes to
  \<^verbatim>\<open>overflow\<close>.
\<close>

definition tee_sputc :: "(int \<Rightarrow> string) \<Rightarrow> clocks \<Rightarrow> char \<Rightarrow> CTeeBuf \<Rightarrow> int \<times> CTeeBuf" where
  "tee_sputc dtos ck ch b = overflow dtos ck (to_int_type ch) b"

subsection \<open>\<^verbatim>\<open>DStream\<close>\<close>

record DStream =
  tbuf :: CTeeBuf

definition DStream_init :: "sink \<Rightarrow> sink \<Rightarrow> DStream" where
  "DStream_init o1 o2 = \<lparr>tbuf = CTeeBuf_init o1 o2\<rparr>"

definition EnableTimeStampStream1 :: "DStream \<Rightarrow> DStream" where
  "EnableTimeStampStream1 d = d\<lparr>tbuf := (tbuf d)\<lparr>timeStampEnabledStream1 := True\<rparr>\<rparr>"

definition EnableTimeStampStream2 :: "DStream \<Rightarrow> DStream" where
  "EnableTimeStampStream2 d = d\<lparr>tbuf := (tbuf d)\<lparr>timeStampEnabledStream2 := True\<rparr>\<rparr>"

definition DisableTimeStampStream1 :: "DStream \<Rightarrow> DStream" where
  "DisableTimeStampStream1 d = d\<lparr>tbuf := (tbuf d)\<lparr>timeStampEnabledStream1 := False\<rparr>\<rparr>"

definition DisableTimeStampStream2 :: "DStream \<Rightarrow> DStream" where
  "DisableTimeStampStream2 d = d\<lparr>tbuf := (tbuf d)\<lparr>timeStampEnabledStream2 := False\<rparr>\<rparr>"

text \<open>The second constructor (lines 161 to 172).\<close>

definition DStream_init_flags :: "sink \<Rightarrow> sink \<Rightarrow> bool \<Rightarrow> bool \<Rightarrow> DStream" where
  "DStream_init_flags o1 o2 enableTimeStampStream_1 enableTimeStampStream_2 =
     (let d0 = \<lparr>tbuf = CTeeBuf_init o1 o2\<rparr>;
          d1 = (if enableTimeStampStream_1 = True
                then EnableTimeStampStream1 d0 else DisableTimeStampStream1 d0);
          d2 = (if enableTimeStampStream_2 = True
                then EnableTimeStampStream2 d1 else DisableTimeStampStream2 d1)
      in d2)"

definition GetLastTimeStamp :: "DStream \<Rightarrow> string" where
  "GetLastTimeStamp d = timeStamp (tbuf d)"

text \<open>
  The loop of \<^verbatim>\<open>ForceMessage\<close> (lines 201 to 204) has an empty body: it ends when the
  flag is found false and otherwise runs forever, which is the value \<open>None\<close>.
\<close>

partial_function (option) wait_forced :: "DStream \<Rightarrow> DStream option" where
  "wait_forced d = (if forceMessage (tbuf d) = True then wait_forced d else Some d)"

definition ForceMessage :: "(int \<Rightarrow> string) \<Rightarrow> clocks \<Rightarrow> string \<Rightarrow> DStream \<Rightarrow> DStream option" where
  "ForceMessage dtos ck message d =
     (let message1 = message @ [CHR 0x0A];
          d1 = d\<lparr>tbuf := (tbuf d)\<lparr>forcedMessage := message1\<rparr>\<rparr>;
          d2 = d1\<lparr>tbuf := (tbuf d1)\<lparr>forceMessage := True\<rparr>\<rparr>;
          d3 = d2\<lparr>tbuf := snd (tee_sputc dtos ck CHR 0x0A (tbuf d2))\<rparr>
      in wait_forced d3)"

subsection \<open>Writing a string through the tee\<close>

text \<open>
  \<^verbatim>\<open>CTeeBuf\<close> inherits \<^verbatim>\<open>xsputn\<close> from \<^verbatim>\<open>std::streambuf\<close>: the characters go to
  \<^verbatim>\<open>sputc\<close> one after the other, up to the first one that fails. Every call of
  \<^verbatim>\<open>overflow\<close> meets the clocks at its own moment, so each character comes with the
  readings of its call.
\<close>

fun tee_sputn :: "(int \<Rightarrow> string) \<Rightarrow> (clocks \<times> char) list \<Rightarrow> CTeeBuf \<Rightarrow> nat \<times> CTeeBuf" where
  "tee_sputn dtos [] b = (0, b)"
| "tee_sputn dtos (x # xs) b =
     (case tee_sputc dtos (fst x) (snd x) b of (r, b') \<Rightarrow>
        if r = EOF then (0, b')
        else (case tee_sputn dtos xs b' of (n, b'') \<Rightarrow> (Suc n, b'')))"

subsection \<open>Notions for the statements\<close>

text \<open>A destination that takes every character it is offered.\<close>

definition reliable :: "sink \<Rightarrow> bool" where
  "reliable k = (\<forall>h ch. accepts k h ch)"

text \<open>The destination \<open>k\<close> after it was offered, and took, the characters \<open>s\<close>.\<close>

definition deliver :: "string \<Rightarrow> sink \<Rightarrow> sink" where
  "deliver s k = k\<lparr>offered := offered k @ s, received := received k @ s\<rparr>"

text \<open>What a destination has received since it was in the state \<open>k\<close>.\<close>

definition delivered :: "sink \<Rightarrow> sink \<Rightarrow> string" where
  "delivered k k' = drop (length (received k)) (received k')"

text \<open>A text set left in a field of \<open>w\<close> columns: spaces follow it, nothing is cut.\<close>

definition pad_left :: "nat \<Rightarrow> string \<Rightarrow> string" where
  "pad_left w s = s @ replicate (w - length s) CHR '' ''"

text \<open>
  What \<^verbatim>\<open>overflow\<close> sends to a destination before the character itself, when the
  destination takes all of it; \<open>en\<close> is the destination's time stamp flag.
\<close>

definition prefix_text :: "bool \<Rightarrow> (int \<Rightarrow> string) \<Rightarrow> clocks \<Rightarrow> CTeeBuf \<Rightarrow> string" where
  "prefix_text en dtos ck b =
     (if forceMessage b then [CHR 0x0A] else [])
     @ (if (newline b \<or> forceMessage b)
           \<and> (timeStampEnabledStream1 b \<or> timeStampEnabledStream2 b) \<and> en
        then pad_left 32 (fst (GetTimeStamp dtos ck b)) else [])
     @ (if forceMessage b then forcedMessage b else [])"

text \<open>Reading a decimal numeral back, and a numeral without padding zeros.\<close>

definition digit_val :: "char \<Rightarrow> nat" where
  "digit_val ch = of_char ch - 48"

definition dec_value :: "string \<Rightarrow> nat" where
  "dec_value s = foldl (\<lambda>a ch. 10 * a + digit_val ch) 0 s"

definition is_digit :: "char \<Rightarrow> bool" where
  "is_digit ch = (ch \<in> set ''0123456789'')"

definition unpadded :: "string \<Rightarrow> bool" where
  "unpadded s = (s \<noteq> [] \<and> list_all is_digit s \<and> (hd s \<noteq> CHR ''0'' \<or> s = ''0''))"

text \<open>Two destinations and a clock reading to run the definitions on.\<close>

definition taking :: sink where
  "taking = \<lparr>offered = [], received = [], syncs = 0,
     accepts = (\<lambda>h ch. True), sync_result = (\<lambda>r. 0)\<rparr>"

definition refusing :: sink where
  "refusing = \<lparr>offered = [], received = [], syncs = 0,
     accepts = (\<lambda>h ch. False), sync_result = (\<lambda>r. - 1)\<rparr>"

definition noon :: clocks where
  "noon = \<lparr>hrc_first = 1000, hrc_now = 1500,
     local_tm = \<lparr>tm_sec = 7, tm_min = 5, tm_hour = 12, tm_mday = 3, tm_mon = 1,
                 tm_year = 119\<rparr>\<rparr>"

definition ticks :: "int \<Rightarrow> string" where
  "ticks d = to_string d @ ''.000000''"

text \<open>The characters of \<^verbatim>\<open>"hello\n"\<close>, each written at the same readings.\<close>

definition hello :: "(clocks \<times> char) list" where
  "hello = map (Pair noon) (''hello'' @ [CHR 0x0A])"

text \<open>The characters of \<^verbatim>\<open>"hi\n"\<close>, each with the readings of its call.\<close>

definition hi :: "clocks \<Rightarrow> clocks \<Rightarrow> clocks \<Rightarrow> (clocks \<times> char) list" where
  "hi ck1 ck2 ck3 = [(ck1, CHR ''h''), (ck2, CHR ''i''), (ck3, CHR 0x0A)]"

text \<open>A stream in the middle of a line: the character \<^verbatim>\<open>a\<close> was written to a new one.\<close>

definition midline :: DStream where
  "midline = \<lparr>tbuf = snd (overflow ticks noon 97 (CTeeBuf_init taking taking))\<rparr>"

text \<open>
  Clock readings 12345678912 ticks apart, for a clock of 1000000000 ticks in a second, and
  a destination that takes 30 characters and refuses what is offered after them.
\<close>

definition stamped :: clocks where
  "stamped = \<lparr>hrc_first = 1000, hrc_now = 12345679912,
     local_tm = \<lparr>tm_sec = 7, tm_min = 5, tm_hour = 12, tm_mday = 3, tm_mon = 1,
                 tm_year = 119\<rparr>\<rparr>"

definition thirty :: sink where
  "thirty = \<lparr>offered = [], received = [], syncs = 0,
     accepts = (\<lambda>h ch. length h < 30), sync_result = (\<lambda>r. 0)\<rparr>"

section \<open>Properties\<close>

subsection \<open>Destinations that take every character\<close>

lemma deliver_Nil [simp]: "deliver [] k = k"
  by (simp add: deliver_def)

lemma deliver_deliver [simp]: "deliver t (deliver s k) = deliver (s @ t) k"
  by (simp add: deliver_def)

lemma deliver_fields [simp]:
  "offered (deliver s k) = offered k @ s"
  "received (deliver s k) = received k @ s"
  "syncs (deliver s k) = syncs k"
  "accepts (deliver s k) = accepts k"
  "sync_result (deliver s k) = sync_result k"
  by (simp_all add: deliver_def)

lemma reliable_deliver [simp]: "reliable (deliver s k) = reliable k"
  by (simp add: reliable_def)

lemma delivered_deliver [simp]: "delivered k (deliver s k) = s"
  by (simp add: delivered_def)

lemma to_int_type_not_EOF: "to_int_type ch \<noteq> EOF"
proof -
  have "(0::int) \<le> of_nat (of_char ch)" by simp
  then have "(0::int) \<le> of_char ch" by (simp only: of_nat_of_char)
  then show ?thesis by (simp add: to_int_type_def EOF_def)
qed

lemma sputc_reliable: "reliable k \<Longrightarrow> sputc ch k = (to_int_type ch, deliver [ch] k)"
  by (simp add: sputc_def reliable_def deliver_def)

lemma sputn_reliable: "reliable k \<Longrightarrow> sputn s k = (length s, deliver s k)"
proof (induction s arbitrary: k)
  case Nil
  show ?case by simp
next
  case (Cons ch cs)
  from Cons.prems have r: "reliable (deliver [ch] k)" by simp
  show ?case
    using Cons.prems by (simp add: sputc_reliable to_int_type_not_EOF Cons.IH [OF r])
qed

lemma ostream_fill_reliable:
  "reliable k \<Longrightarrow> ostream_fill n (os, k) = (os, deliver (replicate n CHR '' '') k)"
proof (induction n arbitrary: k)
  case 0
  show ?case by simp
next
  case (Suc n)
  from Suc.prems have r: "reliable (deliver [CHR '' ''] k)" by simp
  show ?case
    using Suc.prems by (simp add: sputc_reliable to_int_type_not_EOF Suc.IH [OF r])
qed

lemma ostream_write_reliable:
  "reliable k \<Longrightarrow> ostream_write s (os, k) = (os, deliver s k)"
  by (simp add: ostream_write_def sputn_reliable)

lemma ostream_insert_reliable:
  "reliable k \<Longrightarrow> os_good os \<Longrightarrow>
   ostream_insert s (os, k) =
     (os\<lparr>os_width := 0\<rparr>,
      deliver (if os_left os then pad_left (os_width os) s
               else replicate (os_width os - length s) CHR '' '' @ s) k)"
  by (simp add: ostream_insert_def ostream_write_reliable ostream_fill_reliable pad_left_def)

subsection \<open>What a write never changes in a destination\<close>

lemma sputc_policy [simp]:
  "accepts (snd (sputc ch k)) = accepts k"
  "sync_result (snd (sputc ch k)) = sync_result k"
  "syncs (snd (sputc ch k)) = syncs k"
  by (simp_all add: sputc_def)

lemma sputn_policy [simp]:
  "accepts (snd (sputn s k)) = accepts k \<and> sync_result (snd (sputn s k)) = sync_result k
   \<and> syncs (snd (sputn s k)) = syncs k"
proof (induction s arbitrary: k)
  case Nil
  show ?case by simp
next
  case (Cons ch cs)
  show ?case
    using Cons.IH [of "snd (sputc ch k)"] by (simp add: split_def)
qed

lemma ostream_fill_policy [simp]:
  "accepts (snd (ostream_fill n (os, k))) = accepts k
   \<and> sync_result (snd (ostream_fill n (os, k))) = sync_result k
   \<and> syncs (snd (ostream_fill n (os, k))) = syncs k"
proof (induction n arbitrary: os k)
  case 0
  show ?case by simp
next
  case (Suc n)
  show ?case
    using Suc.IH [of os "snd (sputc CHR '' '' k)"] by (simp add: split_def)
qed

lemma ostream_write_policy [simp]:
  "accepts (snd (ostream_write s (os, k))) = accepts k
   \<and> sync_result (snd (ostream_write s (os, k))) = sync_result k
   \<and> syncs (snd (ostream_write s (os, k))) = syncs k"
  by (simp add: ostream_write_def split_def)

lemma ostream_insert_policy [simp]:
  "accepts (snd (ostream_insert s (os, k))) = accepts k
   \<and> sync_result (snd (ostream_insert s (os, k))) = sync_result k
   \<and> syncs (snd (ostream_insert s (os, k))) = syncs k"
proof -
  have w: "\<And>p. accepts (snd (ostream_write s p)) = accepts (snd p)
      \<and> sync_result (snd (ostream_write s p)) = sync_result (snd p)
      \<and> syncs (snd (ostream_write s p)) = syncs (snd p)"
    using ostream_write_policy by (metis prod.collapse)
  have f: "\<And>n p. accepts (snd (ostream_fill n p)) = accepts (snd p)
      \<and> sync_result (snd (ostream_fill n p)) = sync_result (snd p)
      \<and> syncs (snd (ostream_fill n p)) = syncs (snd p)"
    using ostream_fill_policy by (metis prod.collapse)
  show ?thesis
    by (simp add: ostream_insert_def split_def w f)
qed

subsection \<open>The steps of \<^verbatim>\<open>overflow\<close>\<close>

lemma GetTimeStamp_snd [simp]:
  "snd (GetTimeStamp dtos ck b) =
     b\<lparr>clockStarted := True, start := (if clockStarted b then start b else hrc_first ck),
       now := hrc_now ck\<rparr>"
  by (simp add: GetTimeStamp_def Let_def)

lemma GetTimeStamp_fst_cong:
  "clockStarted b' = clockStarted b \<Longrightarrow> start b' = start b \<Longrightarrow>
   fst (GetTimeStamp dtos ck b') = fst (GetTimeStamp dtos ck b)"
  by (simp add: GetTimeStamp_def Let_def)

lemma GetTimeStamp_fst_newline [simp]:
  "fst (GetTimeStamp dtos ck (b\<lparr>newline := x\<rparr>)) = fst (GetTimeStamp dtos ck b)"
  by (rule GetTimeStamp_fst_cong) simp_all

lemma GetTimeStamp_fst_sb1 [simp]:
  "fst (GetTimeStamp dtos ck (b\<lparr>sb1 := k\<rparr>)) = fst (GetTimeStamp dtos ck b)"
  by (rule GetTimeStamp_fst_cong) simp_all

lemma GetTimeStamp_fst_sb2 [simp]:
  "fst (GetTimeStamp dtos ck (b\<lparr>sb2 := k\<rparr>)) = fst (GetTimeStamp dtos ck b)"
  by (rule GetTimeStamp_fst_cong) simp_all

lemma out1_fields [simp]:
  "c (out1 s f) = c f"
  "str2 (out1 s f) = str2 f"
  "buf (out1 s f) = (buf f)\<lparr>sb1 := snd (ostream_insert s (str1 f, sb1 (buf f)))\<rparr>"
  "str1 (out1 s f) = fst (ostream_insert s (str1 f, sb1 (buf f)))"
  by (simp_all add: out1_def split: prod.split)

lemma out2_fields [simp]:
  "c (out2 s f) = c f"
  "str1 (out2 s f) = str1 f"
  "buf (out2 s f) = (buf f)\<lparr>sb2 := snd (ostream_insert s (str2 f, sb2 (buf f)))\<rparr>"
  "str2 (out2 s f) = fst (ostream_insert s (str2 f, sb2 (buf f)))"
  by (simp_all add: out2_def split: prod.split)

lemmas decorate_defs = decorate_def track_newline_def line_start_def emit_forced_def Let_def
  stamp_line_def force_newline_def split_def

lemma decorate_flag: "forceMessage (buf (decorate dtos ck ci b)) = False"
  by (simp add: decorate_defs)

lemma decorate_c: "c (decorate dtos ck ci b) = (if forceMessage b then 10 else ci)"
  by (simp add: decorate_defs)

lemma decorate_newline:
  "newline (buf (decorate dtos ck ci b)) = (to_char_type (c (decorate dtos ck ci b)) = CHR 0x0A)"
  by (simp add: decorate_def track_newline_def)

lemma decorate_settings:
  "timeStampEnabledStream1 (buf (decorate dtos ck ci b)) = timeStampEnabledStream1 b"
  "timeStampEnabledStream2 (buf (decorate dtos ck ci b)) = timeStampEnabledStream2 b"
  "forcedMessage (buf (decorate dtos ck ci b)) = forcedMessage b"
  by (simp_all add: decorate_defs)

lemma decorate_timeStamp:
  "timeStamp (buf (decorate dtos ck ci b)) =
     (if (newline b \<or> forceMessage b)
         \<and> (timeStampEnabledStream1 b \<or> timeStampEnabledStream2 b)
      then fst (GetTimeStamp dtos ck b) else timeStamp b)"
  by (simp add: decorate_defs)

lemma decorate_midline:
  "\<not> newline b \<Longrightarrow> \<not> forceMessage b \<Longrightarrow>
   buf (decorate dtos ck ci b) = b\<lparr>newline := (to_char_type ci = CHR 0x0A)\<rparr>"
  by (simp add: decorate_def track_newline_def line_start_def force_newline_def)

lemma decorate_policy:
  "accepts (sb1 (buf (decorate dtos ck ci b))) = accepts (sb1 b)"
  "accepts (sb2 (buf (decorate dtos ck ci b))) = accepts (sb2 b)"
  "sync_result (sb1 (buf (decorate dtos ck ci b))) = sync_result (sb1 b)"
  "sync_result (sb2 (buf (decorate dtos ck ci b))) = sync_result (sb2 b)"
  "syncs (sb1 (buf (decorate dtos ck ci b))) = syncs (sb1 b)"
  "syncs (sb2 (buf (decorate dtos ck ci b))) = syncs (sb2 b)"
  by (simp_all add: decorate_defs)

lemma decorate_sb1_reliable:
  "reliable (sb1 b) \<Longrightarrow>
   sb1 (buf (decorate dtos ck ci b)) =
     deliver (prefix_text (timeStampEnabledStream1 b) dtos ck b) (sb1 b)"
  by (cases "forceMessage b"; cases "newline b"; cases "timeStampEnabledStream1 b";
      cases "timeStampEnabledStream2 b")
     (simp_all add: decorate_defs prefix_text_def
      ostream_insert_reliable ostream_init_def setw_def set_left_def pad_left_def)

lemma decorate_sb2_reliable:
  "reliable (sb2 b) \<Longrightarrow>
   sb2 (buf (decorate dtos ck ci b)) =
     deliver (prefix_text (timeStampEnabledStream2 b) dtos ck b) (sb2 b)"
  by (cases "forceMessage b"; cases "newline b"; cases "timeStampEnabledStream1 b";
      cases "timeStampEnabledStream2 b")
     (simp_all add: decorate_defs prefix_text_def
      ostream_insert_reliable ostream_init_def setw_def set_left_def pad_left_def)

lemma overflow_snd:
  "ci \<noteq> EOF \<Longrightarrow>
   snd (overflow dtos ck ci b) =
     (buf (decorate dtos ck ci b))
       \<lparr>sb1 := snd (sputc (to_char_type (c (decorate dtos ck ci b)))
                 (sb1 (buf (decorate dtos ck ci b)))),
        sb2 := snd (sputc (to_char_type (c (decorate dtos ck ci b)))
                 (sb2 (buf (decorate dtos ck ci b))))\<rparr>"
  by (simp add: overflow_def Let_def split_def)

lemma overflow_fst:
  "ci \<noteq> EOF \<Longrightarrow>
   fst (overflow dtos ck ci b) =
     (if fst (sputc (to_char_type (c (decorate dtos ck ci b)))
               (sb1 (buf (decorate dtos ck ci b)))) = EOF
         \<or> fst (sputc (to_char_type (c (decorate dtos ck ci b)))
               (sb2 (buf (decorate dtos ck ci b)))) = EOF
      then EOF else c (decorate dtos ck ci b))"
  by (simp add: overflow_def Let_def split_def)

lemma overflow_flag: "ci \<noteq> EOF \<Longrightarrow> forceMessage (snd (overflow dtos ck ci b)) = False"
  by (simp add: overflow_snd decorate_flag)

lemma wait_forced_done: "\<not> forceMessage (tbuf d) \<Longrightarrow> wait_forced d = Some d"
  by (subst wait_forced.simps) simp

lemma sputc_fst_EOF: "(fst (sputc ch k) = EOF) = (\<not> accepts k (offered k) ch)"
  by (simp add: sputc_def to_int_type_not_EOF)

lemma sputc_offered [simp]: "offered (snd (sputc ch k)) = offered k @ [ch]"
  by (simp add: sputc_def)

lemma sputc_received:
  "received (snd (sputc ch k)) = received k @ (if fst (sputc ch k) = EOF then [] else [ch])"
  by (simp add: sputc_def to_int_type_not_EOF)

lemma overflow_sb1_reliable:
  "ci \<noteq> EOF \<Longrightarrow> reliable (sb1 b) \<Longrightarrow>
   sb1 (snd (overflow dtos ck ci b)) =
     deliver (prefix_text (timeStampEnabledStream1 b) dtos ck b
              @ [to_char_type (if forceMessage b then 10 else ci)]) (sb1 b)"
  by (simp add: overflow_snd decorate_sb1_reliable sputc_reliable decorate_c)

lemma overflow_sb2_reliable:
  "ci \<noteq> EOF \<Longrightarrow> reliable (sb2 b) \<Longrightarrow>
   sb2 (snd (overflow dtos ck ci b)) =
     deliver (prefix_text (timeStampEnabledStream2 b) dtos ck b
              @ [to_char_type (if forceMessage b then 10 else ci)]) (sb2 b)"
  by (simp add: overflow_snd decorate_sb2_reliable sputc_reliable decorate_c)

lemma overflow_fst_reliable:
  "ci \<noteq> EOF \<Longrightarrow> reliable (sb1 b) \<Longrightarrow> reliable (sb2 b) \<Longrightarrow>
   fst (overflow dtos ck ci b) = (if forceMessage b then 10 else ci)"
  by (simp add: overflow_fst decorate_sb1_reliable decorate_sb2_reliable sputc_reliable
      decorate_c to_int_type_not_EOF)

lemma overflow_settings:
  "ci \<noteq> EOF \<Longrightarrow>
   timeStampEnabledStream1 (snd (overflow dtos ck ci b)) = timeStampEnabledStream1 b
   \<and> timeStampEnabledStream2 (snd (overflow dtos ck ci b)) = timeStampEnabledStream2 b
   \<and> forcedMessage (snd (overflow dtos ck ci b)) = forcedMessage b"
  by (simp add: overflow_snd decorate_settings)

lemma overflow_newline:
  "ci \<noteq> EOF \<Longrightarrow>
   newline (snd (overflow dtos ck ci b))
     = (to_char_type (if forceMessage b then 10 else ci) = CHR 0x0A)"
  by (simp add: overflow_snd decorate_newline decorate_c)

lemma overflow_timeStamp:
  "ci \<noteq> EOF \<Longrightarrow>
   timeStamp (snd (overflow dtos ck ci b)) =
     (if (newline b \<or> forceMessage b)
         \<and> (timeStampEnabledStream1 b \<or> timeStampEnabledStream2 b)
      then fst (GetTimeStamp dtos ck b) else timeStamp b)"
  by (simp add: overflow_snd decorate_timeStamp)

lemma overflow_reliable:
  "ci \<noteq> EOF \<Longrightarrow>
   reliable (sb1 (snd (overflow dtos ck ci b))) = reliable (sb1 b)
   \<and> reliable (sb2 (snd (overflow dtos ck ci b))) = reliable (sb2 b)"
  by (simp add: overflow_snd reliable_def decorate_policy)

lemma to_char_of_int_type [simp]: "to_char_type (to_int_type ch) = ch"
  by (simp add: to_char_type_def to_int_type_def)

subsection \<open>Runs of writes\<close>

lemma tee_sputn_reliable:
  "reliable (sb1 b) \<Longrightarrow> reliable (sb2 b) \<Longrightarrow>
   timeStampEnabledStream1 b = timeStampEnabledStream2 b \<Longrightarrow>
   \<exists>t. sb1 (snd (tee_sputn dtos xs b)) = deliver t (sb1 b)
     \<and> sb2 (snd (tee_sputn dtos xs b)) = deliver t (sb2 b)
     \<and> fst (tee_sputn dtos xs b) = length xs"
proof (induction xs arbitrary: b)
  case Nil
  have "sb1 b = deliver [] (sb1 b) \<and> sb2 b = deliver [] (sb2 b)" by simp
  then show ?case by (simp del: deliver_Nil) (metis deliver_Nil)
next
  case (Cons x xs)
  let ?ci = "to_int_type (snd x)"
  let ?b1 = "snd (overflow dtos (fst x) ?ci b)"
  let ?t1 = "prefix_text (timeStampEnabledStream1 b) dtos (fst x) b
              @ [to_char_type (if forceMessage b then 10 else ?ci)]"
  have ne: "?ci \<noteq> EOF" by (rule to_int_type_not_EOF)
  have s1: "sb1 ?b1 = deliver ?t1 (sb1 b)"
    using Cons.prems ne by (simp add: overflow_sb1_reliable)
  have s2: "sb2 ?b1 = deliver ?t1 (sb2 b)"
    using Cons.prems ne by (simp add: overflow_sb2_reliable)
  have r: "fst (overflow dtos (fst x) ?ci b) \<noteq> EOF"
    using Cons.prems ne by (simp add: overflow_fst_reliable EOF_def)
  have rel: "reliable (sb1 ?b1)" "reliable (sb2 ?b1)"
    using Cons.prems ne by (simp_all add: overflow_reliable)
  have fl: "timeStampEnabledStream1 ?b1 = timeStampEnabledStream2 ?b1"
    using Cons.prems ne by (simp add: overflow_settings)
  from Cons.IH [OF rel fl] obtain t where
    t: "sb1 (snd (tee_sputn dtos xs ?b1)) = deliver t (sb1 ?b1)"
       "sb2 (snd (tee_sputn dtos xs ?b1)) = deliver t (sb2 ?b1)"
       "fst (tee_sputn dtos xs ?b1) = length xs"
    by blast
  have "sb1 (snd (tee_sputn dtos (x # xs) b)) = deliver (?t1 @ t) (sb1 b)
      \<and> sb2 (snd (tee_sputn dtos (x # xs) b)) = deliver (?t1 @ t) (sb2 b)
      \<and> fst (tee_sputn dtos (x # xs) b) = length (x # xs)"
    using r t s1 s2 by (simp add: tee_sputc_def split_def)
  then show ?case by blast
qed

lemma prefix_text_plain:
  "\<not> forceMessage b \<Longrightarrow> \<not> en \<Longrightarrow> prefix_text en dtos ck b = []"
  by (simp add: prefix_text_def)

lemma tee_sputn_plain:
  "reliable (sb1 b) \<Longrightarrow> reliable (sb2 b) \<Longrightarrow> \<not> forceMessage b \<Longrightarrow>
   \<not> timeStampEnabledStream1 b \<Longrightarrow> \<not> timeStampEnabledStream2 b \<Longrightarrow>
   sb1 (snd (tee_sputn dtos xs b)) = deliver (map snd xs) (sb1 b)
   \<and> sb2 (snd (tee_sputn dtos xs b)) = deliver (map snd xs) (sb2 b)"
proof (induction xs arbitrary: b)
  case Nil
  show ?case by simp
next
  case (Cons x xs)
  let ?ci = "to_int_type (snd x)"
  let ?b1 = "snd (overflow dtos (fst x) ?ci b)"
  have ne: "?ci \<noteq> EOF" by (rule to_int_type_not_EOF)
  have s1: "sb1 ?b1 = deliver [snd x] (sb1 b)"
    using Cons.prems ne by (simp add: overflow_sb1_reliable prefix_text_plain)
  have s2: "sb2 ?b1 = deliver [snd x] (sb2 b)"
    using Cons.prems ne by (simp add: overflow_sb2_reliable prefix_text_plain)
  have r: "fst (overflow dtos (fst x) ?ci b) \<noteq> EOF"
    using Cons.prems ne by (simp add: overflow_fst_reliable)
  have rel: "reliable (sb1 ?b1)" "reliable (sb2 ?b1)"
    using Cons.prems ne by (simp_all add: overflow_reliable)
  have fl: "\<not> forceMessage ?b1" "\<not> timeStampEnabledStream1 ?b1" "\<not> timeStampEnabledStream2 ?b1"
    using Cons.prems ne by (simp_all add: overflow_settings overflow_flag)
  from Cons.IH [OF rel fl] have
    t: "sb1 (snd (tee_sputn dtos xs ?b1)) = deliver (map snd xs) (sb1 ?b1)"
       "sb2 (snd (tee_sputn dtos xs ?b1)) = deliver (map snd xs) (sb2 ?b1)"
    by simp_all
  show ?case
    using r t s1 s2 by (simp add: tee_sputc_def split_def)
qed

lemma reliable_taking [simp]: "reliable taking"
  by (simp add: reliable_def taking_def)

subsection \<open>\<^verbatim>\<open>ForceMessage\<close>\<close>

lemma ForceMessage_eq:
  "ForceMessage dtos ck message d =
     Some (d\<lparr>tbuf := snd (tee_sputc dtos ck CHR 0x0A
                 ((tbuf d)\<lparr>forcedMessage := message @ [CHR 0x0A], forceMessage := True\<rparr>))\<rparr>)"
proof -
  let ?b = "(tbuf d)\<lparr>forcedMessage := message @ [CHR 0x0A], forceMessage := True\<rparr>"
  have "forceMessage (snd (tee_sputc dtos ck CHR 0x0A ?b)) = False"
    by (simp add: tee_sputc_def overflow_flag to_int_type_not_EOF)
  then have "wait_forced (d\<lparr>tbuf := snd (tee_sputc dtos ck CHR 0x0A ?b)\<rparr>)
      = Some (d\<lparr>tbuf := snd (tee_sputc dtos ck CHR 0x0A ?b)\<rparr>)"
    by (simp add: wait_forced_done)
  then show ?thesis
    by (simp add: ForceMessage_def Let_def)
qed

lemma int_type_newline: "to_int_type CHR 0x0A = 10"
  by (simp add: to_int_type_def)

lemma char_type_newline: "to_char_type 10 = CHR 0x0A"
  by (simp add: to_char_type_def char_of_def)

subsection \<open>A character at the start of a line and within a line\<close>

lemma decorate_line_start_sb1:
  "newline b \<Longrightarrow> \<not> forceMessage b \<Longrightarrow>
   sb1 (buf (decorate dtos ck ci b)) =
     (if timeStampEnabledStream1 b
      then snd (ostream_insert (fst (GetTimeStamp dtos ck b))
                 (set_left (setw 32 ostream_init), sb1 b))
      else sb1 b)"
  by (cases "timeStampEnabledStream1 b"; cases "timeStampEnabledStream2 b")
     (simp_all add: decorate_defs)

lemma decorate_line_start_sb2:
  "newline b \<Longrightarrow> \<not> forceMessage b \<Longrightarrow>
   sb2 (buf (decorate dtos ck ci b)) =
     (if timeStampEnabledStream2 b
      then snd (ostream_insert (fst (GetTimeStamp dtos ck b))
                 (set_left (setw 32 ostream_init), sb2 b))
      else sb2 b)"
  by (cases "timeStampEnabledStream1 b"; cases "timeStampEnabledStream2 b")
     (simp_all add: decorate_defs)

lemma pad_left_shape:
  "length (pad_left w s) = max w (length s) \<and> take (length s) (pad_left w s) = s
   \<and> drop (length s) (pad_left w s) = replicate (w - length s) CHR '' ''"
  by (simp add: pad_left_def max_def)

lemma insert_padded:
  "reliable k \<Longrightarrow>
   snd (ostream_insert s (set_left (setw 32 ostream_init), k)) = deliver (pad_left 32 s) k"
  by (simp add: ostream_insert_reliable set_left_def setw_def ostream_init_def)

lemma overflow_line_start_delivered:
  assumes "ci \<noteq> EOF" and "newline b" and "\<not> forceMessage b"
    and "reliable (sb1 b)" and "reliable (sb2 b)"
  shows "delivered (sb1 b) (sb1 (snd (overflow dtos ck ci b)))
           = (if timeStampEnabledStream1 b then pad_left 32 (fst (GetTimeStamp dtos ck b))
              else []) @ [to_char_type ci]
         \<and> delivered (sb2 b) (sb2 (snd (overflow dtos ck ci b)))
           = (if timeStampEnabledStream2 b then pad_left 32 (fst (GetTimeStamp dtos ck b))
              else []) @ [to_char_type ci]"
  using assms by (simp add: overflow_sb1_reliable overflow_sb2_reliable prefix_text_def)

lemma hi_delivered:
  assumes "reliable k1" and "reliable k2"
  shows "delivered k1 (sb1 (snd (tee_sputn dtos (hi ck1 ck2 ck3)
             (tbuf (DStream_init_flags k1 k2 True False)))))
           = pad_left 32 (fst (GetTimeStamp dtos ck1 (CTeeBuf_init k1 k2)))
             @ ''hi'' @ [CHR 0x0A]
         \<and> delivered k2 (sb2 (snd (tee_sputn dtos (hi ck1 ck2 ck3)
             (tbuf (DStream_init_flags k1 k2 True False)))))
           = ''hi'' @ [CHR 0x0A]"
proof -
  let ?b0 = "(CTeeBuf_init k1 k2)\<lparr>timeStampEnabledStream1 := True\<rparr>"
  let ?ts = "fst (GetTimeStamp dtos ck1 (CTeeBuf_init k1 k2))"
  let ?b1 = "snd (overflow dtos ck1 (to_int_type CHR ''h'') ?b0)"
  let ?b2 = "snd (overflow dtos ck2 (to_int_type CHR ''i'') ?b1)"
  let ?b3 = "snd (overflow dtos ck3 (to_int_type CHR 0x0A) ?b2)"
  have b0: "tbuf (DStream_init_flags k1 k2 True False) = ?b0"
    by (simp add: DStream_init_flags_def EnableTimeStampStream1_def
        DisableTimeStampStream2_def CTeeBuf_init_def)
  have f0: "sb1 ?b0 = k1" "sb2 ?b0 = k2" "newline ?b0" "\<not> forceMessage ?b0"
      "timeStampEnabledStream1 ?b0" "\<not> timeStampEnabledStream2 ?b0"
    by (simp_all add: CTeeBuf_init_def)
  have ts: "fst (GetTimeStamp dtos ck1 ?b0) = ?ts"
    by (rule GetTimeStamp_fst_cong) simp_all
  have ne: "\<And>ch. to_int_type ch \<noteq> EOF" by (rule to_int_type_not_EOF)
  have s1: "sb1 ?b1 = deliver (pad_left 32 ?ts @ ''h'') k1" "sb2 ?b1 = deliver ''h'' k2"
    using assms f0 ts ne
    by (simp_all add: overflow_sb1_reliable overflow_sb2_reliable prefix_text_def)
  have f1: "\<not> newline ?b1" "\<not> forceMessage ?b1"
    using ne by (simp_all add: overflow_newline overflow_flag f0)
  have r1: "reliable (sb1 ?b1)" "reliable (sb2 ?b1)"
    using assms s1 by simp_all
  have s2: "sb1 ?b2 = deliver (pad_left 32 ?ts @ ''hi'') k1" "sb2 ?b2 = deliver ''hi'' k2"
    using r1 f1 ne s1
    by (simp_all add: overflow_sb1_reliable overflow_sb2_reliable prefix_text_def)
  have f2: "\<not> newline ?b2" "\<not> forceMessage ?b2"
    using ne by (simp_all add: overflow_newline overflow_flag f1)
  have r2: "reliable (sb1 ?b2)" "reliable (sb2 ?b2)"
    using assms s2 by simp_all
  have s3: "sb1 ?b3 = deliver (pad_left 32 ?ts @ ''hi'' @ [CHR 0x0A]) k1"
      "sb2 ?b3 = deliver (''hi'' @ [CHR 0x0A]) k2"
    using r2 f2 ne s2
    by (simp_all add: overflow_sb1_reliable overflow_sb2_reliable prefix_text_def)
  have ok: "fst (overflow dtos ck1 (to_int_type CHR ''h'') ?b0) \<noteq> EOF"
      "fst (overflow dtos ck2 (to_int_type CHR ''i'') ?b1) \<noteq> EOF"
      "fst (overflow dtos ck3 (to_int_type CHR 0x0A) ?b2) \<noteq> EOF"
    using assms f0 r1 r2 f1 f2 ne by (simp_all add: overflow_fst_reliable)
  have run: "snd (tee_sputn dtos (hi ck1 ck2 ck3) ?b0) = ?b3"
    using ok by (simp add: hi_def tee_sputc_def split_def)
  show ?thesis
    by (simp only: b0 run s3 delivered_deliver)
qed

lemma overflow_midline:
  "ci \<noteq> EOF \<Longrightarrow> \<not> newline b \<Longrightarrow> \<not> forceMessage b \<Longrightarrow>
   snd (overflow dtos ck ci b) =
     b\<lparr>newline := (to_char_type ci = CHR 0x0A),
       sb1 := snd (sputc (to_char_type ci) (sb1 b)),
       sb2 := snd (sputc (to_char_type ci) (sb2 b))\<rparr>"
  by (simp add: overflow_snd decorate_midline decorate_c)

lemma overflow_offered:
  "ci \<noteq> EOF \<Longrightarrow>
   offered (sb1 (snd (overflow dtos ck ci b)))
     = offered (sb1 (buf (decorate dtos ck ci b)))
       @ [to_char_type (if forceMessage b then 10 else ci)]
   \<and> offered (sb2 (snd (overflow dtos ck ci b)))
     = offered (sb2 (buf (decorate dtos ck ci b)))
       @ [to_char_type (if forceMessage b then 10 else ci)]"
  by (simp add: overflow_snd decorate_c)

lemma line_start_skipped: "\<not> newline (buf f) \<Longrightarrow> line_start dtos ck f = f"
  by (simp add: line_start_def)

lemma overflow_line_start_sb1:
  "ci \<noteq> EOF \<Longrightarrow> newline b \<Longrightarrow> \<not> forceMessage b \<Longrightarrow>
   sb1 (snd (overflow dtos ck ci b))
     = snd (sputc (to_char_type ci)
         (if timeStampEnabledStream1 b
          then snd (ostream_insert (fst (GetTimeStamp dtos ck b))
                     (set_left (setw 32 ostream_init), sb1 b))
          else sb1 b))"
  by (simp add: overflow_snd decorate_line_start_sb1 decorate_c)

lemma enable_midline_then_newline:
  assumes "ci \<noteq> EOF" and "ci2 \<noteq> EOF" and "\<not> newline (tbuf d)" and "\<not> forceMessage (tbuf d)"
    and "to_char_type ci = CHR 0x0A"
  shows "offered (sb1 (snd (overflow dtos ck ci (tbuf (EnableTimeStampStream1 d)))))
           = offered (sb1 (tbuf d)) @ [CHR 0x0A]
    \<and> timeStamp (snd (overflow dtos ck ci (tbuf (EnableTimeStampStream1 d))))
           = timeStamp (tbuf d)
    \<and> timeStamp (snd (overflow dtos ck2 ci2
           (snd (overflow dtos ck ci (tbuf (EnableTimeStampStream1 d))))))
         = fst (GetTimeStamp dtos ck2
             (snd (overflow dtos ck ci (tbuf (EnableTimeStampStream1 d)))))
    \<and> sb1 (snd (overflow dtos ck2 ci2
           (snd (overflow dtos ck ci (tbuf (EnableTimeStampStream1 d))))))
         = snd (sputc (to_char_type ci2)
             (snd (ostream_insert
                (fst (GetTimeStamp dtos ck2
                   (snd (overflow dtos ck ci (tbuf (EnableTimeStampStream1 d))))))
                (set_left (setw 32 ostream_init),
                 sb1 (snd (overflow dtos ck ci (tbuf (EnableTimeStampStream1 d))))))))"
proof -
  let ?b = "tbuf (EnableTimeStampStream1 d)"
  let ?b1 = "snd (overflow dtos ck ci ?b)"
  have b: "\<not> newline ?b" "\<not> forceMessage ?b" "sb1 ?b = sb1 (tbuf d)"
      "timeStamp ?b = timeStamp (tbuf d)" "timeStampEnabledStream1 ?b"
    using assms by (simp_all add: EnableTimeStampStream1_def)
  have b1: "?b1 = ?b\<lparr>newline := True,
       sb1 := snd (sputc CHR 0x0A (sb1 ?b)), sb2 := snd (sputc CHR 0x0A (sb2 ?b))\<rparr>"
    using assms b by (simp add: overflow_midline)
  have f1: "newline ?b1" "\<not> forceMessage ?b1" "timeStampEnabledStream1 ?b1"
    using b by (simp_all add: b1)
  have o: "offered (sb1 ?b1) = offered (sb1 (tbuf d)) @ [CHR 0x0A]"
      "timeStamp ?b1 = timeStamp (tbuf d)"
    using b by (simp_all add: b1)
  have t2: "timeStamp (snd (overflow dtos ck2 ci2 ?b1)) = fst (GetTimeStamp dtos ck2 ?b1)"
    using assms f1 by (simp add: overflow_timeStamp)
  have s2: "sb1 (snd (overflow dtos ck2 ci2 ?b1))
      = snd (sputc (to_char_type ci2)
          (snd (ostream_insert (fst (GetTimeStamp dtos ck2 ?b1))
             (set_left (setw 32 ostream_init), sb1 ?b1))))"
    using assms f1 overflow_line_start_sb1 [of ci2 ?b1 dtos ck2] by simp
  show ?thesis
    using o t2 s2 by blast
qed

lemma tee_sputn_timeStamp:
  "\<not> timeStampEnabledStream1 b \<Longrightarrow> \<not> timeStampEnabledStream2 b \<Longrightarrow>
   timeStamp (snd (tee_sputn dtos xs b)) = timeStamp b"
proof (induction xs arbitrary: b)
  case Nil
  show ?case by simp
next
  case (Cons x xs)
  let ?b1 = "snd (overflow dtos (fst x) (to_int_type (snd x)) b)"
  have ne: "to_int_type (snd x) \<noteq> EOF" by (rule to_int_type_not_EOF)
  have fl: "\<not> timeStampEnabledStream1 ?b1" "\<not> timeStampEnabledStream2 ?b1"
    using Cons.prems ne by (simp_all add: overflow_settings)
  have t1: "timeStamp ?b1 = timeStamp b"
    using Cons.prems ne by (simp add: overflow_timeStamp)
  show ?case
    using Cons.IH [OF fl] t1 by (simp add: tee_sputc_def split_def)
qed

subsection \<open>Decimal numerals\<close>

lemma digit_char_cases:
  "d < 10 \<Longrightarrow> d \<in> {0, 1, 2, 3, 4, 5, 6, 7, 8, 9::nat}"
  by auto

lemma digit_char_ok:
  assumes "n < 10"
  shows "is_digit (digit_char n) \<and> digit_val (digit_char n) = n
         \<and> (digit_char n = CHR ''0'') = (n = 0)"
  using digit_char_cases [OF assms]
  by (auto simp add: digit_char_def is_digit_def digit_val_def)

lemma dec_digits_not_Nil: "dec_digits n \<noteq> []"
  by (subst dec_digits.simps) simp

lemma dec_digits_digits: "list_all is_digit (dec_digits n)"
proof (induction n rule: dec_digits.induct)
  case (1 n)
  show ?case
  proof (cases "n < 10")
    case True
    then show ?thesis
      by (subst dec_digits.simps) (simp add: digit_char_ok)
  next
    case False
    then have "list_all is_digit (dec_digits (n div 10))" using 1 by simp
    moreover have "is_digit (digit_char (n mod 10))" by (simp add: digit_char_ok)
    ultimately show ?thesis
      using False by (subst dec_digits.simps) simp
  qed
qed

lemma dec_value_snoc: "dec_value (s @ [ch]) = 10 * dec_value s + digit_val ch"
  by (simp add: dec_value_def)

lemma dec_value_dec_digits: "dec_value (dec_digits n) = n"
proof (induction n rule: dec_digits.induct)
  case (1 n)
  show ?case
  proof (cases "n < 10")
    case True
    then show ?thesis
      by (subst dec_digits.simps) (simp add: dec_value_def digit_char_ok)
  next
    case False
    then have "dec_value (dec_digits (n div 10)) = n div 10" using 1 by simp
    then show ?thesis
      using False by (subst dec_digits.simps) (simp add: dec_value_snoc digit_char_ok)
  qed
qed

lemma dec_digits_hd: "(hd (dec_digits n) = CHR ''0'') = (n = 0)"
proof (induction n rule: dec_digits.induct)
  case (1 n)
  show ?case
  proof (cases "n < 10")
    case True
    then show ?thesis
      by (subst dec_digits.simps) (simp add: digit_char_ok)
  next
    case False
    then have "(hd (dec_digits (n div 10)) = CHR ''0'') = (n div 10 = 0)" using 1 by simp
    moreover have "n div 10 \<noteq> 0" using False by simp
    ultimately show ?thesis
      using False by (subst dec_digits.simps) (simp add: dec_digits_not_Nil)
  qed
qed

lemma dec_digits_zero: "dec_digits 0 = ''0''"
  by (subst dec_digits.simps) (simp add: digit_char_def)

lemma dec_digits_unpadded: "unpadded (dec_digits n)"
  using dec_digits_hd [of n] dec_digits_zero
  by (auto simp add: unpadded_def dec_digits_not_Nil dec_digits_digits)

lemma dec_digits_length_1: "n < 10 \<Longrightarrow> length (dec_digits n) = 1"
  by (subst dec_digits.simps) simp

lemma dec_digits_length_2: "10 \<le> n \<Longrightarrow> n < 100 \<Longrightarrow> length (dec_digits n) = 2"
  by (subst dec_digits.simps) (simp add: dec_digits_length_1)

lemma dec_digits_length_3: "100 \<le> n \<Longrightarrow> n < 1000 \<Longrightarrow> length (dec_digits n) = 3"
  by (subst dec_digits.simps) (simp add: dec_digits_length_2)

lemma dec_digits_length_4: "1000 \<le> n \<Longrightarrow> n < 10000 \<Longrightarrow> length (dec_digits n) = 4"
  by (subst dec_digits.simps) (simp add: dec_digits_length_3)

lemma GetTimeStamp_fst:
  "fst (GetTimeStamp dtos ck b) =
     ''['' @ to_string (tm_year (local_tm ck) + 1900) @ ''-''
     @ to_string (tm_mon (local_tm ck) + 1) @ ''-'' @ to_string (tm_mday (local_tm ck))
     @ ''|'' @ to_string (tm_hour (local_tm ck)) @ '':'' @ to_string (tm_min (local_tm ck))
     @ '':'' @ to_string (tm_sec (local_tm ck)) @ ''|''
     @ dtos (hrc_now ck - (if clockStarted b then start b else hrc_first ck)) @ ''] ''"
  by (simp add: GetTimeStamp_def Let_def)

lemma dec_digits_length_le: "0 < k \<Longrightarrow> n < 10 ^ k \<Longrightarrow> length (dec_digits n) \<le> k"
proof (induction n arbitrary: k rule: dec_digits.induct)
  case (1 n)
  show ?case
  proof (cases "n < 10")
    case True
    then show ?thesis
      using 1(2) by (subst dec_digits.simps) simp
  next
    case False
    obtain j where k: "k = Suc j" using 1(2) by (cases k) auto
    have j: "0 < j"
    proof (rule ccontr)
      assume "\<not> 0 < j"
      then have "k = 1" using k by simp
      then show False using False 1(3) by simp
    qed
    have "n div 10 < 10 ^ j" using 1(3) k by (simp add: less_mult_imp_div_less mult.commute)
    then have "length (dec_digits (n div 10)) \<le> j"
      using 1(1) [OF False j] by simp
    then show ?thesis
      using False k by (subst dec_digits.simps) simp
  qed
qed

lemma digit_val_zero: "digit_val CHR ''0'' = 0"
  by (simp add: digit_val_def)

lemma dec_value_zeros: "dec_value (replicate k CHR ''0'' @ s) = dec_value s"
proof -
  have z: "foldl (\<lambda>a ch. 10 * a + digit_val ch) 0 (replicate k CHR ''0'') = 0"
    by (induction k) (simp_all add: digit_val_zero)
  show ?thesis
    by (simp add: dec_value_def z)
qed

lemma is_digit_zero: "is_digit CHR ''0''"
  by (simp add: is_digit_def)

lemma zeros_digits: "list_all is_digit (replicate k CHR ''0'')"
  by (induction k) (simp_all add: is_digit_zero)

lemma fraction_digits:
  assumes "n < 1000000"
  shows "length (replicate (6 - length (dec_digits n)) CHR ''0'' @ dec_digits n) = 6
    \<and> list_all is_digit (replicate (6 - length (dec_digits n)) CHR ''0'' @ dec_digits n)
    \<and> dec_value (replicate (6 - length (dec_digits n)) CHR ''0'' @ dec_digits n) = n"
proof -
  have "length (dec_digits n) \<le> 6"
    using assms dec_digits_length_le [of 6 n] by simp
  then show ?thesis
    by (simp add: dec_value_zeros dec_value_dec_digits dec_digits_digits zeros_digits)
qed

lemma to_string_double_form:
  "\<exists>ip fp. to_string_double x = (if negative x then ''-'' else []) @ ip @ ''.'' @ fp
     \<and> unpadded ip \<and> length fp = 6 \<and> list_all is_digit fp
     \<and> dec_value ip * 1000000 + dec_value fp = micros x"
proof -
  let ?m = "micros x"
  let ?ip = "dec_digits (?m div 1000000)"
  let ?fr = "dec_digits (?m mod 1000000)"
  let ?fp = "replicate (6 - length ?fr) CHR ''0'' @ ?fr"
  have f: "length ?fp = 6 \<and> list_all is_digit ?fp \<and> dec_value ?fp = ?m mod 1000000"
    by (rule fraction_digits) simp
  have t: "to_string_double x = (if negative x then ''-'' else []) @ ?ip @ ''.'' @ ?fp"
    by (simp add: to_string_double_def Let_def)
  have v: "dec_value ?ip * 1000000 + dec_value ?fp = ?m"
    using f by (simp add: dec_value_dec_digits)
  show ?thesis
    using t f v dec_digits_unpadded [of "?m div 1000000"] by blast
qed

text \<open>The elapsed time of the readings \<open>stamped\<close>, step by step.\<close>

lemma stamped_count: "double_of_int 12345678912
    = \<lparr>negative = False, mant = 6472691305414656, expo = - 19\<rparr>"
  by (simp add: double_of_int_def round_ratio_def round_half_even_def bits.simps Let_def)

lemma stamped_rate: "double_of_int 1000000000
    = \<lparr>negative = False, mant = 8388608000000000, expo = - 23\<rparr>"
  by (simp add: double_of_int_def round_ratio_def round_half_even_def bits.simps Let_def)

lemma stamped_seconds: "duration_double 1000000000 12345678912
    = \<lparr>negative = False, mant = 6949999368464874, expo = - 49\<rparr>"
  by (simp add: duration_double_def stamped_count stamped_rate double_div_def round_ratio_def
      round_half_even_def bits.simps Let_def)

lemma stamped_micros:
  "micros \<lparr>negative = False, mant = 6949999368464874, expo = - 49\<rparr> = 12345679"
  by (simp add: micros_def round_half_even_def Let_def)

lemma stamped_digits: "dec_digits 12 = ''12''" "dec_digits 345679 = ''345679''"
  by (simp_all add: dec_digits.simps digit_char_def)

lemma stamped_text: "elapsed_text 1000000000 12345678912 = ''12.345679''"
  by (simp add: elapsed_text_def to_string_double_def Let_def stamped_seconds stamped_micros
      stamped_digits)

section \<open>The claims\<close>

text \<open>
  Claim C8. \<^verbatim>\<open>overflow(EOF)\<close> reports success (its result, \<^verbatim>\<open>!EOF\<close>, is \<open>0\<close> and not
  \<^verbatim>\<open>EOF\<close>), hands nothing to either destination and leaves the whole object as it was:
  the line-start flag, the time stamp flags and string, the forced message and its flag,
  and the clock origin.
\<close>

theorem overflow_EOF_is_noop:
  "overflow dtos ck EOF b = (0, b) \<and> fst (overflow dtos ck EOF b) \<noteq> EOF
   \<and> snd (overflow dtos ck EOF b) = b
   \<and> received (sb1 (snd (overflow dtos ck EOF b))) = received (sb1 b)
   \<and> received (sb2 (snd (overflow dtos ck EOF b))) = received (sb2 b)
   \<and> offered (sb1 (snd (overflow dtos ck EOF b))) = offered (sb1 b)
   \<and> offered (sb2 (snd (overflow dtos ck EOF b))) = offered (sb2 b)"
  by (simp add: overflow_def lnot_def EOF_def)

text \<open>
  Claim C9. \<^verbatim>\<open>sync\<close> passes the request to both destinations (each gets one more sync
  request, whatever the other answered) and returns \<open>0\<close> exactly when both answered \<open>0\<close>,
  and \<open>-1\<close> otherwise.
\<close>

theorem sync_both:
  "fst (sync b) = (if fst (pubsync (sb1 b)) = 0 \<and> fst (pubsync (sb2 b)) = 0 then 0 else - 1)
   \<and> (fst (sync b) = 0) = (fst (pubsync (sb1 b)) = 0 \<and> fst (pubsync (sb2 b)) = 0)
   \<and> (fst (sync b) = - 1) = (\<not> (fst (pubsync (sb1 b)) = 0 \<and> fst (pubsync (sb2 b)) = 0))
   \<and> sb1 (snd (sync b)) = snd (pubsync (sb1 b))
   \<and> sb2 (snd (sync b)) = snd (pubsync (sb2 b))
   \<and> syncs (sb1 (snd (sync b))) = Suc (syncs (sb1 b))
   \<and> syncs (sb2 (snd (sync b))) = Suc (syncs (sb2 b))
   \<and> snd (sync b) = b\<lparr>sb1 := snd (pubsync (sb1 b)), sb2 := snd (pubsync (sb2 b))\<rparr>"
  by (simp add: sync_def pubsync_def)

text \<open>
  Claim C10. Run by one thread, \<^verbatim>\<open>ForceMessage\<close> returns, whatever the destinations do
  with what is written to them: the newline it puts into the tee reaches \<^verbatim>\<open>overflow\<close>,
  which leaves the force flag cleared, so the loop finds its condition false at the first
  test and the result is the object as that one \<^verbatim>\<open>sputc\<close> left it.
\<close>

theorem ForceMessage_returns:
  "ForceMessage dtos ck message d =
     Some (d\<lparr>tbuf := snd (tee_sputc dtos ck CHR 0x0A
                 ((tbuf d)\<lparr>forcedMessage := message @ [CHR 0x0A], forceMessage := True\<rparr>))\<rparr>)
   \<and> forceMessage (snd (tee_sputc dtos ck CHR 0x0A
         ((tbuf d)\<lparr>forcedMessage := message @ [CHR 0x0A], forceMessage := True\<rparr>))) = False
   \<and> (\<exists>d'. ForceMessage dtos ck message d = Some d' \<and> forceMessage (tbuf d') = False)"
proof -
  let ?b = "(tbuf d)\<lparr>forcedMessage := message @ [CHR 0x0A], forceMessage := True\<rparr>"
  have off: "forceMessage (snd (tee_sputc dtos ck CHR 0x0A ?b)) = False"
    by (simp add: tee_sputc_def overflow_flag to_int_type_not_EOF)
  show ?thesis
    using off by (simp add: ForceMessage_eq)
qed

text \<open>
  Claim C5. For a character other than \<^verbatim>\<open>EOF\<close>, \<^verbatim>\<open>overflow\<close> returns
  \<^verbatim>\<open>EOF\<close> exactly when at least one of the two writes of the character (lines 128 and
  129) returned \<^verbatim>\<open>EOF\<close>, and the character otherwise. Both writes are made: each
  destination is offered the character, and what a destination has received afterwards
  depends on its own answer only, so a failure of one neither prevents nor undoes the write
  to the other.
\<close>

theorem overflow_fails_iff_a_write_fails:
  assumes "ci \<noteq> EOF"
  shows "(let f = decorate dtos ck ci b;
              ch = to_char_type (c f);
              r1 = fst (sputc ch (sb1 (buf f)));
              r2 = fst (sputc ch (sb2 (buf f)));
              b' = snd (overflow dtos ck ci b)
          in (fst (overflow dtos ck ci b) = EOF) = (r1 = EOF \<or> r2 = EOF)
           \<and> fst (overflow dtos ck ci b) = (if r1 = EOF \<or> r2 = EOF then EOF else c f)
           \<and> c f \<noteq> EOF
           \<and> (r1 = EOF) = (\<not> accepts (sb1 b) (offered (sb1 (buf f))) ch)
           \<and> (r2 = EOF) = (\<not> accepts (sb2 b) (offered (sb2 (buf f))) ch)
           \<and> sb1 b' = snd (sputc ch (sb1 (buf f)))
           \<and> sb2 b' = snd (sputc ch (sb2 (buf f)))
           \<and> offered (sb1 b') = offered (sb1 (buf f)) @ [ch]
           \<and> offered (sb2 b') = offered (sb2 (buf f)) @ [ch]
           \<and> received (sb1 b') = received (sb1 (buf f)) @ (if r1 = EOF then [] else [ch])
           \<and> received (sb2 b') = received (sb2 (buf f)) @ (if r2 = EOF then [] else [ch]))"
proof -
  have cf: "c (decorate dtos ck ci b) \<noteq> EOF"
    using assms by (simp add: decorate_c EOF_def)
  show ?thesis
    unfolding Let_def
    using assms cf
    by (simp add: overflow_fst overflow_snd sputc_fst_EOF sputc_received decorate_policy)
qed

text \<open>The first destination refuses the character, the second takes it.\<close>

theorem overflow_fails_iff_a_write_fails_witness:
  "(97::int) \<noteq> EOF
   \<and> fst (overflow ticks noon 97 (CTeeBuf_init refusing taking)) = EOF
   \<and> received (sb1 (snd (overflow ticks noon 97 (CTeeBuf_init refusing taking)))) = []
   \<and> received (sb2 (snd (overflow ticks noon 97 (CTeeBuf_init refusing taking)))) = ''a''
   \<and> offered (sb1 (snd (overflow ticks noon 97 (CTeeBuf_init refusing taking)))) = ''a''
   \<and> fst (overflow ticks noon 97 (CTeeBuf_init taking taking)) = 97"
proof -
  have h: "(97::int) \<noteq> EOF" by (simp add: EOF_def)
  have e: "fst (overflow ticks noon 97 (CTeeBuf_init refusing taking)) = EOF"
      "received (sb1 (snd (overflow ticks noon 97 (CTeeBuf_init refusing taking)))) = []"
      "received (sb2 (snd (overflow ticks noon 97 (CTeeBuf_init refusing taking)))) = ''a''"
      "offered (sb1 (snd (overflow ticks noon 97 (CTeeBuf_init refusing taking)))) = ''a''"
      "fst (overflow ticks noon 97 (CTeeBuf_init taking taking)) = 97"
    by code_simp+
  show ?thesis
    using overflow_fails_iff_a_write_fails [OF h, of ticks noon "CTeeBuf_init refusing taking"]
      h e
    by simp
qed

text \<open>
  Claim C1, as amended. When both destinations take every character offered to them and
  have equal time stamp settings, a string written through the tee gives both destinations
  the same characters in the same order; with the time stamps off and no forced message
  pending these are the characters written, in the order written (so \<^verbatim>\<open>"hello\n"\<close>
  reaches both as it is).
\<close>

theorem tee_same_text_to_both:
  assumes "reliable (sb1 b)" and "reliable (sb2 b)"
    and "timeStampEnabledStream1 b = timeStampEnabledStream2 b"
  shows "delivered (sb1 b) (sb1 (snd (tee_sputn dtos xs b)))
           = delivered (sb2 b) (sb2 (snd (tee_sputn dtos xs b)))
         \<and> fst (tee_sputn dtos xs b) = length xs
         \<and> (\<not> timeStampEnabledStream1 b \<and> \<not> forceMessage b \<longrightarrow>
              delivered (sb1 b) (sb1 (snd (tee_sputn dtos xs b))) = map snd xs
              \<and> delivered (sb2 b) (sb2 (snd (tee_sputn dtos xs b))) = map snd xs)"
proof -
  from tee_sputn_reliable [OF assms] obtain t where
    t: "sb1 (snd (tee_sputn dtos xs b)) = deliver t (sb1 b)"
       "sb2 (snd (tee_sputn dtos xs b)) = deliver t (sb2 b)"
       "fst (tee_sputn dtos xs b) = length xs"
    by blast
  have plain: "\<not> timeStampEnabledStream1 b \<and> \<not> forceMessage b \<longrightarrow>
      sb1 (snd (tee_sputn dtos xs b)) = deliver (map snd xs) (sb1 b)
      \<and> sb2 (snd (tee_sputn dtos xs b)) = deliver (map snd xs) (sb2 b)"
    using assms tee_sputn_plain [of b dtos xs] by simp
  show ?thesis
    using t plain by simp
qed

theorem tee_same_text_to_both_witness:
  "reliable taking
   \<and> timeStampEnabledStream1 (CTeeBuf_init taking taking)
       = timeStampEnabledStream2 (CTeeBuf_init taking taking)
   \<and> \<not> timeStampEnabledStream1 (CTeeBuf_init taking taking)
   \<and> \<not> forceMessage (CTeeBuf_init taking taking)
   \<and> delivered taking (sb1 (snd (tee_sputn ticks hello (CTeeBuf_init taking taking))))
        = ''hello'' @ [CHR 0x0A]
   \<and> delivered taking (sb2 (snd (tee_sputn ticks hello (CTeeBuf_init taking taking))))
        = ''hello'' @ [CHR 0x0A]
   \<and> fst (tee_sputn ticks hello (CTeeBuf_init taking taking)) = 6"
  using tee_same_text_to_both [of "CTeeBuf_init taking taking" ticks hello]
  by (simp add: CTeeBuf_init_def hello_def comp_def)

text \<open>
  The claim as stated, for every run, fails when a destination refuses what it is
  offered: with the time stamp enabled on both, the first destination refusing and the
  second taking, the second receives the padded time stamp and the character and the first
  receives nothing; it is not even offered the same characters, since its local stream is
  bad after the first refusal.
\<close>

theorem refused_destination_differs:
  "timeStampEnabledStream1 (tbuf (DStream_init_flags refusing taking True True))
     = timeStampEnabledStream2 (tbuf (DStream_init_flags refusing taking True True))
   \<and> received (sb1 (snd (tee_sputc ticks noon CHR ''a''
         (tbuf (DStream_init_flags refusing taking True True))))) = []
   \<and> received (sb2 (snd (tee_sputc ticks noon CHR ''a''
         (tbuf (DStream_init_flags refusing taking True True)))))
       = ''[2019-2-3|12:5:7|500.000000]    a''
   \<and> offered (sb1 (snd (tee_sputc ticks noon CHR ''a''
         (tbuf (DStream_init_flags refusing taking True True))))) = ''[a''
   \<and> offered (sb2 (snd (tee_sputc ticks noon CHR ''a''
         (tbuf (DStream_init_flags refusing taking True True)))))
       = ''[2019-2-3|12:5:7|500.000000]    a''"
  by code_simp

text \<open>
  Claim C2, as amended. When both destinations take every character, \<^verbatim>\<open>ForceMessage\<close>
  returns, and by then each destination has received a newline, then (if its time stamp is
  enabled) the time stamp padded to 32 columns, then the message and its newline, and then
  one more newline: the character that \<^verbatim>\<open>overflow\<close> puts in place of the one written.
  The force flag is cleared and the next character starts a line.
\<close>

theorem ForceMessage_text:
  assumes "reliable (sb1 (tbuf d))" and "reliable (sb2 (tbuf d))"
  shows "\<exists>d'. ForceMessage dtos ck message d = Some d'
    \<and> delivered (sb1 (tbuf d)) (sb1 (tbuf d'))
        = [CHR 0x0A]
          @ (if timeStampEnabledStream1 (tbuf d)
             then pad_left 32 (fst (GetTimeStamp dtos ck (tbuf d))) else [])
          @ message @ [CHR 0x0A] @ [CHR 0x0A]
    \<and> delivered (sb2 (tbuf d)) (sb2 (tbuf d'))
        = [CHR 0x0A]
          @ (if timeStampEnabledStream2 (tbuf d)
             then pad_left 32 (fst (GetTimeStamp dtos ck (tbuf d))) else [])
          @ message @ [CHR 0x0A] @ [CHR 0x0A]
    \<and> forceMessage (tbuf d') = False
    \<and> newline (tbuf d') = True
    \<and> forcedMessage (tbuf d') = message @ [CHR 0x0A]"
proof -
  let ?b = "(tbuf d)\<lparr>forcedMessage := message @ [CHR 0x0A], forceMessage := True\<rparr>"
  let ?b' = "snd (overflow dtos ck 10 ?b)"
  have ne: "(10::int) \<noteq> EOF" by (simp add: EOF_def)
  have ts: "fst (GetTimeStamp dtos ck ?b) = fst (GetTimeStamp dtos ck (tbuf d))"
    by (rule GetTimeStamp_fst_cong) simp_all
  have ret: "ForceMessage dtos ck message d = Some (d\<lparr>tbuf := ?b'\<rparr>)"
    by (simp add: ForceMessage_eq tee_sputc_def int_type_newline)
  have s1: "sb1 ?b' = deliver ([CHR 0x0A]
          @ (if timeStampEnabledStream1 (tbuf d)
             then pad_left 32 (fst (GetTimeStamp dtos ck (tbuf d))) else [])
          @ message @ [CHR 0x0A] @ [CHR 0x0A]) (sb1 (tbuf d))"
    using assms(1) ne ts
    by (simp add: overflow_sb1_reliable prefix_text_def char_type_newline)
  have s2: "sb2 ?b' = deliver ([CHR 0x0A]
          @ (if timeStampEnabledStream2 (tbuf d)
             then pad_left 32 (fst (GetTimeStamp dtos ck (tbuf d))) else [])
          @ message @ [CHR 0x0A] @ [CHR 0x0A]) (sb2 (tbuf d))"
    using assms(2) ne ts
    by (simp add: overflow_sb2_reliable prefix_text_def char_type_newline)
  have fl: "forceMessage ?b' = False" "newline ?b' = True"
      "forcedMessage ?b' = message @ [CHR 0x0A]"
    using ne by (simp_all add: overflow_flag overflow_newline overflow_settings char_type_newline)
  show ?thesis
    using ret s1 s2 fl by (simp del: deliver_deliver)
qed

theorem ForceMessage_text_witness:
  "reliable (sb1 (tbuf (DStream_init_flags taking taking True False)))
   \<and> reliable (sb2 (tbuf (DStream_init_flags taking taking True False)))
   \<and> (\<exists>d'. ForceMessage ticks noon ''alert'' (DStream_init_flags taking taking True False)
              = Some d'
        \<and> received (sb1 (tbuf d'))
            = CHR 0x0A # ''[2019-2-3|12:5:7|500.000000]    alert'' @ [CHR 0x0A, CHR 0x0A]
        \<and> received (sb2 (tbuf d')) = CHR 0x0A # ''alert'' @ [CHR 0x0A, CHR 0x0A]
        \<and> forceMessage (tbuf d') = False)"
proof -
  have k: "sb1 (tbuf (DStream_init_flags taking taking True False)) = taking"
      "sb2 (tbuf (DStream_init_flags taking taking True False)) = taking"
    by (simp_all add: DStream_init_flags_def EnableTimeStampStream1_def
        DisableTimeStampStream2_def CTeeBuf_init_def)
  have e: "timeStampEnabledStream1 (tbuf (DStream_init_flags taking taking True False)) = True"
      "timeStampEnabledStream2 (tbuf (DStream_init_flags taking taking True False)) = False"
      "received taking = []"
      "pad_left 32 (fst (GetTimeStamp ticks noon
          (tbuf (DStream_init_flags taking taking True False))))
        = ''[2019-2-3|12:5:7|500.000000]    ''"
    by code_simp+
  show ?thesis
    using ForceMessage_text [of "DStream_init_flags taking taking True False" ticks noon
        "''alert''"] k e
    by (auto simp add: delivered_def)
qed

text \<open>
  The claim as stated ends the output with \<^verbatim>\<open>"alert\n"\<close>; the destinations receive a
  second newline after it. And a destination that refuses its characters receives nothing.
\<close>

theorem ForceMessage_second_newline:
  "map_option (\<lambda>d. received (sb1 (tbuf d)))
       (ForceMessage ticks noon ''alert'' (DStream_init taking taking))
     = Some (CHR 0x0A # ''alert'' @ [CHR 0x0A, CHR 0x0A])
   \<and> map_option (\<lambda>d. received (sb2 (tbuf d)))
       (ForceMessage ticks noon ''alert'' (DStream_init taking taking))
     = Some (CHR 0x0A # ''alert'' @ [CHR 0x0A, CHR 0x0A])
   \<and> map_option (\<lambda>d. received (sb1 (tbuf d)))
       (ForceMessage ticks noon ''alert'' (DStream_init refusing taking))
     = Some []"
  by (simp add: ForceMessage_eq) code_simp

text \<open>
  Claim C3. The time stamp is \<^verbatim>\<open>[\<close>, the year, \<^verbatim>\<open>-\<close>, the month, \<^verbatim>\<open>-\<close>, the
  day, \<^verbatim>\<open>|\<close>, the hour, \<^verbatim>\<open>:\<close>, the minute, \<^verbatim>\<open>:\<close>, the second, \<^verbatim>\<open>|\<close>, the
  elapsed seconds, and \<^verbatim>\<open>]\<close> with one space after it. The elapsed seconds are the
  \<^verbatim>\<open>double\<close> of line 58 as \<^verbatim>\<open>std::to_string\<close> prints it, and every such text is a
  sign if the value is negative, an integer part without padding, a point and six decimals,
  which read back as the value rounded to millionths. The numbers of the date and the time
  are plain decimal numerals: digits only, which read back as the number, without a leading
  zero (a single digit for a value below ten); the year has four digits from 1000 to 9999.
\<close>

theorem GetTimeStamp_form:
  "fst (GetTimeStamp (elapsed_text den) ck b) =
     ''['' @ to_string (tm_year (local_tm ck) + 1900) @ ''-''
     @ to_string (tm_mon (local_tm ck) + 1) @ ''-'' @ to_string (tm_mday (local_tm ck))
     @ ''|'' @ to_string (tm_hour (local_tm ck)) @ '':'' @ to_string (tm_min (local_tm ck))
     @ '':'' @ to_string (tm_sec (local_tm ck)) @ ''|''
     @ to_string_double (duration_double den
         (hrc_now ck - (if clockStarted b then start b else hrc_first ck)))
     @ ''] ''
   \<and> (\<exists>ip fp. to_string_double x = (if negative x then ''-'' else []) @ ip @ ''.'' @ fp
         \<and> unpadded ip \<and> length fp = 6 \<and> list_all is_digit fp
         \<and> dec_value ip * 1000000 + dec_value fp = micros x)
   \<and> hd (fst (GetTimeStamp (elapsed_text den) ck b)) = CHR ''[''
   \<and> last (fst (GetTimeStamp (elapsed_text den) ck b)) = CHR '' ''
   \<and> last (butlast (fst (GetTimeStamp (elapsed_text den) ck b))) = CHR '']''
   \<and> (0 \<le> n \<longrightarrow> unpadded (to_string n) \<and> dec_value (to_string n) = nat n)
   \<and> (0 \<le> n \<and> n < 10 \<longrightarrow> length (to_string n) = 1)
   \<and> (10 \<le> n \<and> n < 100 \<longrightarrow> length (to_string n) = 2)
   \<and> (1000 \<le> n \<and> n \<le> 9999 \<longrightarrow> length (to_string n) = 4)"
proof -
  have eq: "fst (GetTimeStamp (elapsed_text den) ck b) =
     ''['' @ to_string (tm_year (local_tm ck) + 1900) @ ''-''
     @ to_string (tm_mon (local_tm ck) + 1) @ ''-'' @ to_string (tm_mday (local_tm ck))
     @ ''|'' @ to_string (tm_hour (local_tm ck)) @ '':'' @ to_string (tm_min (local_tm ck))
     @ '':'' @ to_string (tm_sec (local_tm ck)) @ ''|''
     @ to_string_double (duration_double den
         (hrc_now ck - (if clockStarted b then start b else hrc_first ck)))
     @ ''] ''"
    by (simp add: GetTimeStamp_fst elapsed_text_def)
  have shape: "hd (fst (GetTimeStamp (elapsed_text den) ck b)) = CHR ''[''
      \<and> last (fst (GetTimeStamp (elapsed_text den) ck b)) = CHR '' ''
      \<and> last (butlast (fst (GetTimeStamp (elapsed_text den) ck b))) = CHR '']''"
    by (simp add: GetTimeStamp_fst butlast_append)
  have num: "0 \<le> n \<longrightarrow> unpadded (to_string n) \<and> dec_value (to_string n) = nat n"
    by (simp add: to_string_def dec_digits_unpadded dec_value_dec_digits)
  have l1: "0 \<le> n \<and> n < 10 \<longrightarrow> length (to_string n) = 1"
    using dec_digits_length_1 [of "nat n"] by (auto simp add: to_string_def)
  have l2: "10 \<le> n \<and> n < 100 \<longrightarrow> length (to_string n) = 2"
    using dec_digits_length_2 [of "nat n"] by (auto simp add: to_string_def)
  have l4: "1000 \<le> n \<and> n \<le> 9999 \<longrightarrow> length (to_string n) = 4"
    using dec_digits_length_4 [of "nat n"] by (auto simp add: to_string_def)
  show ?thesis
    using eq to_string_double_form [of x] shape num l1 l2 l4 by blast
qed

theorem GetTimeStamp_form_witness:
  "fst (GetTimeStamp (elapsed_text 1000000000) stamped (CTeeBuf_init taking taking))
     = ''[2019-2-3|12:5:7|12.345679] ''
   \<and> to_string_double (duration_double 1000000000 12345678912) = ''12.345679''
   \<and> micros (duration_double 1000000000 12345678912) = 12345679
   \<and> (0::int) \<le> 5 \<and> (5::int) < 10 \<and> to_string 5 = ''5'' \<and> unpadded (to_string 5)
   \<and> length (to_string 5) = 1
   \<and> (1000::int) \<le> 2019 \<and> (2019::int) \<le> 9999 \<and> length (to_string 2019) = 4"
proof -
  have t: "to_string_double (duration_double 1000000000 12345678912) = ''12.345679''"
    using stamped_text by (simp add: elapsed_text_def)
  have m: "micros (duration_double 1000000000 12345678912) = 12345679"
    by (simp add: stamped_seconds stamped_micros)
  have n: "to_string 2019 = ''2019''" "to_string 2 = ''2''" "to_string 3 = ''3''"
      "to_string 12 = ''12''" "to_string 5 = ''5''" "to_string 7 = ''7''"
    by (simp_all add: to_string_def dec_digits.simps digit_char_def)
  have e: "fst (GetTimeStamp (elapsed_text 1000000000) stamped (CTeeBuf_init taking taking))
        = ''[2019-2-3|12:5:7|12.345679] ''"
    by (simp add: GetTimeStamp_fst stamped_def CTeeBuf_init_def stamped_text n)
  show ?thesis
    using GetTimeStamp_form [of 1000000000 stamped "CTeeBuf_init taking taking"
        "duration_double 1000000000 12345678912" 5]
      GetTimeStamp_form [of 1000000000 stamped "CTeeBuf_init taking taking"
        "duration_double 1000000000 12345678912" 2019] e t m n
    by simp
qed

text \<open>
  Claim C4, as amended. At the start of a line (no forced message pending), a destination
  whose flag is set gets the time stamp inserted left-adjusted in a field of 32, and then
  the character; one whose flag is not set gets the character only. When the destination
  takes what it is offered, the insertion gives it the time stamp and then spaces up to 32
  columns, and all of a longer time stamp; so, for destinations that take what they are
  offered and with the flag set on the first only, \<^verbatim>\<open>"hi\n"\<close> gives the first the
  padded time stamp and then \<^verbatim>\<open>"hi\n"\<close>, and the second \<^verbatim>\<open>"hi\n"\<close>.
\<close>

theorem timestamp_at_line_start:
  "(ci \<noteq> EOF \<and> newline b \<and> \<not> forceMessage b \<longrightarrow>
      sb1 (snd (overflow dtos ck ci b))
        = snd (sputc (to_char_type ci)
            (if timeStampEnabledStream1 b
             then snd (ostream_insert (fst (GetTimeStamp dtos ck b))
                        (set_left (setw 32 ostream_init), sb1 b))
             else sb1 b))
      \<and> sb2 (snd (overflow dtos ck ci b))
        = snd (sputc (to_char_type ci)
            (if timeStampEnabledStream2 b
             then snd (ostream_insert (fst (GetTimeStamp dtos ck b))
                        (set_left (setw 32 ostream_init), sb2 b))
             else sb2 b)))
   \<and> (reliable k \<longrightarrow>
        snd (ostream_insert s (set_left (setw 32 ostream_init), k)) = deliver (pad_left 32 s) k)
   \<and> length (pad_left 32 s) = max 32 (length s)
   \<and> take (length s) (pad_left 32 s) = s
   \<and> drop (length s) (pad_left 32 s) = replicate (32 - length s) CHR '' ''
   \<and> (ci \<noteq> EOF \<and> newline b \<and> \<not> forceMessage b \<and> reliable (sb1 b) \<and> reliable (sb2 b) \<longrightarrow>
        delivered (sb1 b) (sb1 (snd (overflow dtos ck ci b)))
          = (if timeStampEnabledStream1 b then pad_left 32 (fst (GetTimeStamp dtos ck b))
             else []) @ [to_char_type ci]
        \<and> delivered (sb2 b) (sb2 (snd (overflow dtos ck ci b)))
          = (if timeStampEnabledStream2 b then pad_left 32 (fst (GetTimeStamp dtos ck b))
             else []) @ [to_char_type ci])
   \<and> (reliable k1 \<and> reliable k2 \<longrightarrow>
        delivered k1 (sb1 (snd (tee_sputn dtos (hi ck1 ck2 ck3)
            (tbuf (DStream_init_flags k1 k2 True False)))))
          = pad_left 32 (fst (GetTimeStamp dtos ck1 (CTeeBuf_init k1 k2))) @ ''hi'' @ [CHR 0x0A]
        \<and> delivered k2 (sb2 (snd (tee_sputn dtos (hi ck1 ck2 ck3)
            (tbuf (DStream_init_flags k1 k2 True False)))))
          = ''hi'' @ [CHR 0x0A])"
proof -
  have a: "ci \<noteq> EOF \<and> newline b \<and> \<not> forceMessage b \<longrightarrow>
      sb1 (snd (overflow dtos ck ci b))
        = snd (sputc (to_char_type ci)
            (if timeStampEnabledStream1 b
             then snd (ostream_insert (fst (GetTimeStamp dtos ck b))
                        (set_left (setw 32 ostream_init), sb1 b))
             else sb1 b))
      \<and> sb2 (snd (overflow dtos ck ci b))
        = snd (sputc (to_char_type ci)
            (if timeStampEnabledStream2 b
             then snd (ostream_insert (fst (GetTimeStamp dtos ck b))
                        (set_left (setw 32 ostream_init), sb2 b))
             else sb2 b))"
    by (simp add: overflow_snd decorate_line_start_sb1 decorate_line_start_sb2 decorate_c)
  show ?thesis
    using a insert_padded [of k s] pad_left_shape [of 32 s]
      overflow_line_start_delivered [of ci b dtos ck] hi_delivered [of k1 k2 dtos ck1 ck2 ck3]
    by blast
qed

theorem timestamp_at_line_start_witness:
  "(104::int) \<noteq> EOF \<and> newline (tbuf (DStream_init_flags taking taking True False))
   \<and> \<not> forceMessage (tbuf (DStream_init_flags taking taking True False))
   \<and> reliable taking
   \<and> received (sb1 (snd (overflow ticks noon 104
         (tbuf (DStream_init_flags taking taking True False)))))
       = ''[2019-2-3|12:5:7|500.000000]    h''
   \<and> received (sb2 (snd (overflow ticks noon 104
         (tbuf (DStream_init_flags taking taking True False))))) = ''h''
   \<and> received (sb1 (snd (tee_sputn ticks (hi noon noon noon)
         (tbuf (DStream_init_flags taking taking True False)))))
       = ''[2019-2-3|12:5:7|500.000000]    hi'' @ [CHR 0x0A]
   \<and> received (sb2 (snd (tee_sputn ticks (hi noon noon noon)
         (tbuf (DStream_init_flags taking taking True False)))))
       = ''hi'' @ [CHR 0x0A]
   \<and> length (pad_left 32 ''[2019-2-3|12:5:7|500.000000] '') = 32"
proof -
  have k: "sb1 (tbuf (DStream_init_flags taking taking True False)) = taking"
      "sb2 (tbuf (DStream_init_flags taking taking True False)) = taking"
    by (simp_all add: DStream_init_flags_def EnableTimeStampStream1_def
        DisableTimeStampStream2_def CTeeBuf_init_def)
  have e: "(104::int) \<noteq> EOF" "newline (tbuf (DStream_init_flags taking taking True False))"
      "\<not> forceMessage (tbuf (DStream_init_flags taking taking True False))"
      "timeStampEnabledStream1 (tbuf (DStream_init_flags taking taking True False))"
      "\<not> timeStampEnabledStream2 (tbuf (DStream_init_flags taking taking True False))"
      "received taking = []"
      "to_char_type 104 = CHR ''h''"
      "pad_left 32 (fst (GetTimeStamp ticks noon
          (tbuf (DStream_init_flags taking taking True False))))
        = ''[2019-2-3|12:5:7|500.000000]    ''"
      "pad_left 32 (fst (GetTimeStamp ticks noon (CTeeBuf_init taking taking)))
        = ''[2019-2-3|12:5:7|500.000000]    ''"
      "length ''[2019-2-3|12:5:7|500.000000] '' = 29"
    by code_simp+
  show ?thesis
    using timestamp_at_line_start [of 104 "tbuf (DStream_init_flags taking taking True False)"
        ticks noon taking "''[2019-2-3|12:5:7|500.000000] ''" taking taking noon noon noon]
      k e reliable_taking
    by (simp add: delivered_def sputc_reliable insert_padded)
qed

text \<open>
  The claim as stated fails when a destination stops taking characters: with the flag set
  on the first destination only and the first taking no more than 30 characters, writing
  \<^verbatim>\<open>"hi\n"\<close> leaves the first with 30 columns (the time stamp and one space of the
  padding) and no \<^verbatim>\<open>"hi\n"\<close>, and the second with \<^verbatim>\<open>h\<close> alone, since the write
  of \<^verbatim>\<open>h\<close> fails and the string is not written further.
\<close>

theorem short_destination_cut:
  "received (sb1 (snd (tee_sputn ticks (hi noon noon noon)
       (tbuf (DStream_init_flags thirty taking True False)))))
     = ''[2019-2-3|12:5:7|500.000000]  ''
   \<and> length ''[2019-2-3|12:5:7|500.000000]  '' = 30
   \<and> received (sb2 (snd (tee_sputn ticks (hi noon noon noon)
       (tbuf (DStream_init_flags thirty taking True False))))) = ''h''
   \<and> fst (tee_sputn ticks (hi noon noon noon)
       (tbuf (DStream_init_flags thirty taking True False))) = 0"
  by code_simp

text \<open>
  Claim C6. The line-start flag is true in a new object. After a character other than
  \<^verbatim>\<open>EOF\<close> it is true exactly when the character emitted (the last one offered to both
  destinations; a newline in place of the one written when a forced message was pending)
  is a newline. Lines 101 to 121 do nothing unless the flag is true. A character written
  within a line, with no forced message pending, changes the flag and goes to the two
  destinations, and nothing else happens, whatever the time stamp flags are: after
  \<^verbatim>\<open>EnableTimeStampStream1\<close> within a line, the newline that ends the line is passed on
  as it is and no time stamp is computed, and the character after it gets the time stamp.
\<close>

theorem line_start_flag:
  "newline (CTeeBuf_init k1 k2) = True
   \<and> (ci \<noteq> EOF \<longrightarrow>
        newline (snd (overflow dtos ck ci b))
          = (to_char_type (if forceMessage b then 10 else ci) = CHR 0x0A)
        \<and> offered (sb1 (snd (overflow dtos ck ci b)))
          = offered (sb1 (buf (decorate dtos ck ci b)))
            @ [to_char_type (if forceMessage b then 10 else ci)]
        \<and> offered (sb2 (snd (overflow dtos ck ci b)))
          = offered (sb2 (buf (decorate dtos ck ci b)))
            @ [to_char_type (if forceMessage b then 10 else ci)])
   \<and> (\<not> newline (buf f) \<longrightarrow> line_start dtos ck f = f)
   \<and> (ci \<noteq> EOF \<and> \<not> newline b \<and> \<not> forceMessage b \<longrightarrow>
        snd (overflow dtos ck ci b) =
          b\<lparr>newline := (to_char_type ci = CHR 0x0A),
            sb1 := snd (sputc (to_char_type ci) (sb1 b)),
            sb2 := snd (sputc (to_char_type ci) (sb2 b))\<rparr>)
   \<and> (ci \<noteq> EOF \<and> ci2 \<noteq> EOF \<and> \<not> newline (tbuf d) \<and> \<not> forceMessage (tbuf d)
        \<and> to_char_type ci = CHR 0x0A \<longrightarrow>
        offered (sb1 (snd (overflow dtos ck ci (tbuf (EnableTimeStampStream1 d)))))
           = offered (sb1 (tbuf d)) @ [CHR 0x0A]
        \<and> timeStamp (snd (overflow dtos ck ci (tbuf (EnableTimeStampStream1 d))))
           = timeStamp (tbuf d)
        \<and> timeStamp (snd (overflow dtos ck2 ci2
             (snd (overflow dtos ck ci (tbuf (EnableTimeStampStream1 d))))))
           = fst (GetTimeStamp dtos ck2
               (snd (overflow dtos ck ci (tbuf (EnableTimeStampStream1 d)))))
        \<and> sb1 (snd (overflow dtos ck2 ci2
             (snd (overflow dtos ck ci (tbuf (EnableTimeStampStream1 d))))))
           = snd (sputc (to_char_type ci2)
               (snd (ostream_insert
                  (fst (GetTimeStamp dtos ck2
                     (snd (overflow dtos ck ci (tbuf (EnableTimeStampStream1 d))))))
                  (set_left (setw 32 ostream_init),
                   sb1 (snd (overflow dtos ck ci (tbuf (EnableTimeStampStream1 d)))))))))"
proof -
  have init: "newline (CTeeBuf_init k1 k2) = True"
    by (simp add: CTeeBuf_init_def)
  show ?thesis
    using init overflow_newline [of ci dtos ck b] overflow_offered [of ci dtos ck b]
      line_start_skipped [of f dtos ck] overflow_midline [of ci b dtos ck]
      enable_midline_then_newline [of ci ci2 d dtos ck ck2]
    by blast
qed

theorem line_start_flag_witness:
  "(10::int) \<noteq> EOF \<and> (99::int) \<noteq> EOF
   \<and> \<not> newline (tbuf midline) \<and> \<not> forceMessage (tbuf midline)
   \<and> to_char_type 10 = CHR 0x0A
   \<and> newline (snd (overflow ticks noon 10 (tbuf (EnableTimeStampStream1 midline))))
   \<and> offered (sb1 (snd (overflow ticks noon 10 (tbuf (EnableTimeStampStream1 midline)))))
       = ''a'' @ [CHR 0x0A]
   \<and> timeStamp (snd (overflow ticks noon 10 (tbuf (EnableTimeStampStream1 midline)))) = []
   \<and> received (sb1 (snd (overflow ticks noon 99
         (snd (overflow ticks noon 10 (tbuf (EnableTimeStampStream1 midline)))))))
       = ''a'' @ [CHR 0x0A] @ ''[2019-2-3|12:5:7|500.000000]    c''"
proof -
  have e: "(10::int) \<noteq> EOF" "(99::int) \<noteq> EOF"
      "\<not> newline (tbuf midline)" "\<not> forceMessage (tbuf midline)"
      "to_char_type 10 = CHR 0x0A"
      "offered (sb1 (tbuf midline)) = ''a''"
      "timeStamp (tbuf midline) = []"
      "received (sb1 (snd (overflow ticks noon 99
         (snd (overflow ticks noon 10 (tbuf (EnableTimeStampStream1 midline)))))))
       = ''a'' @ [CHR 0x0A] @ ''[2019-2-3|12:5:7|500.000000]    c''"
    by code_simp+
  show ?thesis
    using line_start_flag [of taking taking 10 ticks noon "tbuf (EnableTimeStampStream1 midline)"
        "\<lparr>buf = tbuf midline, str1 = ostream_init, str2 = ostream_init, c = 10\<rparr>"
        99 midline noon] e
    by (simp add: EnableTimeStampStream1_def)
qed

text \<open>
  Claim C7. \<^verbatim>\<open>GetLastTimeStamp\<close> returns the member \<^verbatim>\<open>timeStamp\<close>. It is empty in a new
  stream; \<^verbatim>\<open>overflow\<close> sets it to the time stamp it computes, which it does for a
  character other than \<^verbatim>\<open>EOF\<close> at the start of a line (or with a forced message pending)
  when one of the two flags is set, and leaves it alone otherwise; nothing else changes it.
  So it stays empty as long as no flag is set, whatever is written.
\<close>

theorem GetLastTimeStamp_latest:
  "GetLastTimeStamp (DStream_init o1 o2) = []
   \<and> GetLastTimeStamp (DStream_init_flags o1 o2 e1 e2) = []
   \<and> GetLastTimeStamp d = timeStamp (tbuf d)
   \<and> (ci \<noteq> EOF \<longrightarrow>
        timeStamp (snd (overflow dtos ck ci b)) =
          (if (newline b \<or> forceMessage b)
              \<and> (timeStampEnabledStream1 b \<or> timeStampEnabledStream2 b)
           then fst (GetTimeStamp dtos ck b) else timeStamp b))
   \<and> timeStamp (snd (overflow dtos ck EOF b)) = timeStamp b
   \<and> timeStamp (snd (sync b)) = timeStamp b
   \<and> GetLastTimeStamp (EnableTimeStampStream1 d) = GetLastTimeStamp d
   \<and> GetLastTimeStamp (EnableTimeStampStream2 d) = GetLastTimeStamp d
   \<and> GetLastTimeStamp (DisableTimeStampStream1 d) = GetLastTimeStamp d
   \<and> GetLastTimeStamp (DisableTimeStampStream2 d) = GetLastTimeStamp d
   \<and> map_option GetLastTimeStamp (ForceMessage dtos ck message d) =
        Some (if timeStampEnabledStream1 (tbuf d) \<or> timeStampEnabledStream2 (tbuf d)
              then fst (GetTimeStamp dtos ck (tbuf d)) else GetLastTimeStamp d)
   \<and> (\<not> timeStampEnabledStream1 b \<and> \<not> timeStampEnabledStream2 b \<longrightarrow>
        timeStamp (snd (tee_sputn dtos xs b)) = timeStamp b)
   \<and> GetLastTimeStamp ((DStream_init o1 o2)
        \<lparr>tbuf := snd (tee_sputn dtos xs (tbuf (DStream_init o1 o2)))\<rparr>) = []"
proof -
  have init: "GetLastTimeStamp (DStream_init o1 o2) = []"
      "GetLastTimeStamp (DStream_init_flags o1 o2 e1 e2) = []"
    by (simp_all add: GetLastTimeStamp_def DStream_init_def DStream_init_flags_def
        CTeeBuf_init_def EnableTimeStampStream1_def EnableTimeStampStream2_def
        DisableTimeStampStream1_def DisableTimeStampStream2_def Let_def)
  have acc: "GetLastTimeStamp d = timeStamp (tbuf d)"
    by (simp add: GetLastTimeStamp_def)
  have eof: "timeStamp (snd (overflow dtos ck EOF b)) = timeStamp b"
    by (simp add: overflow_def)
  have sy: "timeStamp (snd (sync b)) = timeStamp b"
    by (simp add: sync_def split_def)
  have sw: "GetLastTimeStamp (EnableTimeStampStream1 d) = GetLastTimeStamp d"
      "GetLastTimeStamp (EnableTimeStampStream2 d) = GetLastTimeStamp d"
      "GetLastTimeStamp (DisableTimeStampStream1 d) = GetLastTimeStamp d"
      "GetLastTimeStamp (DisableTimeStampStream2 d) = GetLastTimeStamp d"
    by (simp_all add: GetLastTimeStamp_def EnableTimeStampStream1_def
        EnableTimeStampStream2_def DisableTimeStampStream1_def DisableTimeStampStream2_def)
  have ts: "fst (GetTimeStamp dtos ck
        ((tbuf d)\<lparr>forcedMessage := message @ [CHR 0x0A], forceMessage := True\<rparr>))
      = fst (GetTimeStamp dtos ck (tbuf d))"
    by (rule GetTimeStamp_fst_cong) simp_all
  have fm: "map_option GetLastTimeStamp (ForceMessage dtos ck message d) =
        Some (if timeStampEnabledStream1 (tbuf d) \<or> timeStampEnabledStream2 (tbuf d)
              then fst (GetTimeStamp dtos ck (tbuf d)) else GetLastTimeStamp d)"
    using ts
    by (simp add: ForceMessage_eq GetLastTimeStamp_def tee_sputc_def overflow_timeStamp
        to_int_type_not_EOF)
  have fresh: "GetLastTimeStamp ((DStream_init o1 o2)
        \<lparr>tbuf := snd (tee_sputn dtos xs (tbuf (DStream_init o1 o2)))\<rparr>) = []"
    using tee_sputn_timeStamp [of "CTeeBuf_init o1 o2" dtos xs]
    by (simp add: GetLastTimeStamp_def DStream_init_def CTeeBuf_init_def)
  show ?thesis
    using init acc eof sy sw fm fresh overflow_timeStamp [of ci dtos ck b]
      tee_sputn_timeStamp [of b dtos xs]
    by blast
qed

theorem GetLastTimeStamp_latest_witness:
  "(104::int) \<noteq> EOF
   \<and> GetLastTimeStamp (DStream_init_flags taking taking True False) = []
   \<and> GetLastTimeStamp ((DStream_init_flags taking taking True False)
        \<lparr>tbuf := snd (overflow ticks noon 104
             (tbuf (DStream_init_flags taking taking True False)))\<rparr>)
       = ''[2019-2-3|12:5:7|500.000000] ''
   \<and> \<not> timeStampEnabledStream1 (CTeeBuf_init taking taking)
   \<and> \<not> timeStampEnabledStream2 (CTeeBuf_init taking taking)
   \<and> timeStamp (snd (tee_sputn ticks hello (CTeeBuf_init taking taking))) = []"
proof -
  have e: "(104::int) \<noteq> EOF"
      "\<not> timeStampEnabledStream1 (CTeeBuf_init taking taking)"
      "\<not> timeStampEnabledStream2 (CTeeBuf_init taking taking)"
      "timeStamp (CTeeBuf_init taking taking) = []"
      "newline (tbuf (DStream_init_flags taking taking True False))"
      "timeStampEnabledStream1 (tbuf (DStream_init_flags taking taking True False))"
      "fst (GetTimeStamp ticks noon (tbuf (DStream_init_flags taking taking True False)))
        = ''[2019-2-3|12:5:7|500.000000] ''"
    by code_simp+
  show ?thesis
    using GetLastTimeStamp_latest [of taking taking True False
        "DStream_init_flags taking taking True False" 104 ticks noon
        "tbuf (DStream_init_flags taking taking True False)" "''x''" hello]
      GetLastTimeStamp_latest [of taking taking True False
        "DStream_init_flags taking taking True False" 104 ticks noon
        "CTeeBuf_init taking taking" "''x''" hello] e
    by (simp add: GetLastTimeStamp_def)
qed

end
